theory Spec2Isabelle
  imports Complex_Main
begin

section \<open>Python values used by the language module\<close>

text \<open>
  Shallow embedding of \<^verbatim>\<open>neurallog/language/language.py\<close>. Python numbers are
  either \<^verbatim>\<open>int\<close> or \<^verbatim>\<open>float\<close>; two numbers are \<^verbatim>\<open>==\<close> exactly when they
  denote the same numeric value, and \<^verbatim>\<open>hash\<close> depends on that value only. Floats are
  taken to be finite (no \<^verbatim>\<open>nan\<close>, no infinities) and are represented by the rational
  they denote. Strings are lists of characters; the character classes
  \<^verbatim>\<open>isupper\<close>/\<^verbatim>\<open>islower\<close> are modelled on ASCII.
\<close>

datatype pynum = PyInt int | PyFloat rat

fun num_val :: "pynum \<Rightarrow> rat" where
  "num_val (PyInt i) = of_int i"
| "num_val (PyFloat r) = r"

text \<open>
  An element of a \<^verbatim>\<open>key()\<close> tuple of a term, identified up to Python's \<^verbatim>\<open>==\<close>:
  a string or the value of a number. A string never equals a number.
\<close>

datatype pyval = PStr string | PNum rat

datatype error =
    AtomMalformedException int int
  | TermMalformedException
  | IndexError
  | TypeError

fun str_join :: "string \<Rightarrow> string list \<Rightarrow> string" where
  "str_join sep [] = []"
| "str_join sep [x] = x"
| "str_join sep (x # y # ys) = x @ sep @ str_join sep (y # ys)"

definition digit_char :: "nat \<Rightarrow> char" where
  "digit_char d = ''0123456789'' ! d"

text \<open>\<^verbatim>\<open>"{}".format(i)\<close> for a non-negative \<^verbatim>\<open>int\<close>: its decimal digits.\<close>

fun str_nat :: "nat \<Rightarrow> string" where
  "str_nat n = (if n < 10 then [digit_char n]
                else str_nat (n div 10) @ [digit_char (n mod 10)])"

definition isupper :: "char \<Rightarrow> bool" where
  "isupper c = (let n = (of_char c :: nat) in 65 \<le> n \<and> n \<le> 90)"

definition islower :: "char \<Rightarrow> bool" where
  "islower c = (let n = (of_char c :: nat) in 97 \<le> n \<and> n \<le> 122)"

definition isdigit :: "char \<Rightarrow> bool" where
  "isdigit c = (let n = (of_char c :: nat) in 48 \<le> n \<and> n \<le> 57)"

text \<open>
  \<^verbatim>\<open>PLACE_HOLDER = re.compile("({[a-zA-Z0-9_-]+})")\<close> and \<^verbatim>\<open>PLACE_HOLDER.search\<close>:
  some \<^verbatim>\<open>{\<close> is followed by one or more identifier characters and then \<^verbatim>\<open>}\<close>.
  The closing brace is not an identifier character, so the greedy run decides.
\<close>

definition place_holder_char :: "char \<Rightarrow> bool" where
  "place_holder_char c =
     (isupper c \<or> islower c \<or> isdigit c \<or> c = CHR ''_'' \<or> c = CHR ''-'')"

definition place_holder_at :: "string \<Rightarrow> bool" where
  "place_holder_at s =
     (let run = takeWhile place_holder_char s; rest = dropWhile place_holder_char s
      in run \<noteq> [] \<and> (case rest of [] \<Rightarrow> False | c # _ \<Rightarrow> c = CHR ''}''))"

fun PLACE_HOLDER_search :: "string \<Rightarrow> bool" where
  "PLACE_HOLDER_search [] = False"
| "PLACE_HOLDER_search (c # cs) =
     ((c = CHR ''{'' \<and> place_holder_at cs) \<or> PLACE_HOLDER_search cs)"

section \<open>Terms\<close>

text \<open>
  A term object with the attributes its constructor stores: \<^verbatim>\<open>Constant(value)\<close>,
  \<^verbatim>\<open>Variable(value)\<close>, \<^verbatim>\<open>Quote\<close> with \<^verbatim>\<open>value\<close>, \<^verbatim>\<open>_is_template\<close> and
  \<^verbatim>\<open>quote\<close>, \<^verbatim>\<open>Number(value)\<close>, \<^verbatim>\<open>TemplateTerm\<close> with \<^verbatim>\<open>parts\<close> (its value is
  their concatenation) and \<^verbatim>\<open>ListTerms\<close> with \<^verbatim>\<open>items\<close> and the rendered
  \<^verbatim>\<open>value\<close>. The base class \<^verbatim>\<open>Term\<close> is treated as abstract.
\<close>

datatype Term =
    Constant string
  | Variable string
  | Quote string bool char
  | Number pynum
  | TemplateTerm "string list"
  | ListTerms "Term list" string

fun is_constant :: "Term \<Rightarrow> bool" where
  "is_constant (Constant v) = True"
| "is_constant (Variable v) = False"
| "is_constant (Quote v tmpl q) = (\<not> tmpl)"
| "is_constant (Number n) = True"
| "is_constant (TemplateTerm ps) = False"
| "is_constant (ListTerms items v) = True"

fun is_template :: "Term \<Rightarrow> bool" where
  "is_template (Constant v) = False"
| "is_template (Variable v) = False"
| "is_template (Quote v tmpl q) = tmpl"
| "is_template (Number n) = False"
| "is_template (TemplateTerm ps) = True"
| "is_template (ListTerms items v) = list_ex is_template items"

text \<open>
  \<^verbatim>\<open>Term.key\<close> is \<^verbatim>\<open>(self.value,)\<close>; \<^verbatim>\<open>Variable.key\<close> is
  \<^verbatim>\<open>(Variable.__class__.__name__, self.value)\<close>, and the class of the class
  \<^verbatim>\<open>Variable\<close> is \<^verbatim>\<open>type\<close>, so the tag is the string \<^verbatim>\<open>type\<close>.
\<close>

fun term_key :: "Term \<Rightarrow> pyval list" where
  "term_key (Constant v) = [PStr v]"
| "term_key (Variable v) = [PStr ''type'', PStr v]"
| "term_key (Quote v tmpl q) = [PStr v]"
| "term_key (Number n) = [PNum (num_val n)]"
| "term_key (TemplateTerm ps) = [PStr (concat ps)]"
| "term_key (ListTerms items v) = [PStr v]"

text \<open>\<^verbatim>\<open>Term.__eq__\<close> between two terms: their keys are equal.\<close>

definition term_eq :: "Term \<Rightarrow> Term \<Rightarrow> bool" where
  "term_eq a b = (term_key a = term_key b)"

text \<open>
  \<^verbatim>\<open>str(term)\<close>. The text of a number is Python's own formatting, a parameter
  \<open>fmt\<close> of the model.
\<close>

fun term_str :: "(pynum \<Rightarrow> string) \<Rightarrow> Term \<Rightarrow> string" where
  "term_str fmt (Constant v) = v"
| "term_str fmt (Variable v) = v"
| "term_str fmt (Quote v tmpl q) = [q] @ v @ [q]"
| "term_str fmt (Number n) = fmt n"
| "term_str fmt (TemplateTerm ps) = concat ps"
| "term_str fmt (ListTerms items v) = v"

definition Quote_init :: "string \<Rightarrow> error + Term" where
  "Quote_init v =
     (if v = [] then Inl IndexError
      else Inr (Quote (butlast (tl v)) (PLACE_HOLDER_search v) (hd v)))"

definition ListTerms_init :: "(pynum \<Rightarrow> string) \<Rightarrow> Term list \<Rightarrow> Term" where
  "ListTerms_init fmt ts =
     ListTerms ts (''['' @ str_join '', '' (map (term_str fmt) ts) @ '']'')"

definition get_term_from_string :: "string \<Rightarrow> error + Term" where
  "get_term_from_string s =
     (if s = [] then Inl IndexError
      else if isupper (hd s) then Inr (Variable s)
      else if islower (hd s) \<or> hd s = CHR ''_'' then Inr (Constant s)
      else if hd s = last s \<and> (hd s = CHR 0x27 \<or> hd s = CHR 0x22) then Quote_init s
      else Inl TermMalformedException)"

text \<open>An argument handed to \<^verbatim>\<open>build_terms\<close>: a term, a string, a number, or anything else.\<close>

datatype arg = ArgTerm Term | ArgStr string | ArgNum pynum | ArgOther

fun build_terms :: "arg list \<Rightarrow> error + Term list" where
  "build_terms [] = Inr []"
| "build_terms (a # as) =
     (case (case a of
              ArgTerm t \<Rightarrow> Inr t
            | ArgStr s \<Rightarrow> get_term_from_string s
            | ArgNum n \<Rightarrow> Inr (Number n)
            | ArgOther \<Rightarrow> Inl TermMalformedException) of
        Inl e \<Rightarrow> Inl e
      | Inr t \<Rightarrow> (case build_terms as of Inl e \<Rightarrow> Inl e | Inr ts \<Rightarrow> Inr (t # ts)))"

section \<open>Predicates\<close>

datatype Predicate = Predicate string int | TemplatePredicate "string list" int

fun pred_name :: "Predicate \<Rightarrow> string" where
  "pred_name (Predicate n a) = n"
| "pred_name (TemplatePredicate ps a) = concat ps"

fun pred_arity :: "Predicate \<Rightarrow> int" where
  "pred_arity (Predicate n a) = a"
| "pred_arity (TemplatePredicate ps a) = a"

fun pred_is_template :: "Predicate \<Rightarrow> bool" where
  "pred_is_template (Predicate n a) = False"
| "pred_is_template (TemplatePredicate ps a) = True"

definition pred_key :: "Predicate \<Rightarrow> string \<times> int" where
  "pred_key p = (pred_name p, pred_arity p)"

text \<open>\<^verbatim>\<open>isinstance(other, self.__class__)\<close> for predicates.\<close>

fun pred_isinstance :: "Predicate \<Rightarrow> Predicate \<Rightarrow> bool" where
  "pred_isinstance other (Predicate n a) = True"
| "pred_isinstance other (TemplatePredicate ps a) = pred_is_template other"

definition pred_dunder_eq :: "Predicate \<Rightarrow> Predicate \<Rightarrow> bool" where
  "pred_dunder_eq self other =
     (if pred_isinstance other self then pred_key self = pred_key other else False)"

text \<open>
  The operator \<^verbatim>\<open>v == w\<close>: when the class of \<open>w\<close> is a proper subclass of the class
  of \<open>v\<close>, Python calls the method of \<open>w\<close> first; \<^verbatim>\<open>Predicate.__eq__\<close> never
  answers \<^verbatim>\<open>NotImplemented\<close>, so that call decides. \<^verbatim>\<open>v != w\<close> is its negation.
\<close>

definition pred_eq :: "Predicate \<Rightarrow> Predicate \<Rightarrow> bool" where
  "pred_eq v w =
     (if pred_is_template w \<and> \<not> pred_is_template v then pred_dunder_eq w v
      else pred_dunder_eq v w)"

definition pred_ne :: "Predicate \<Rightarrow> Predicate \<Rightarrow> bool" where
  "pred_ne v w = (\<not> pred_eq v w)"

section \<open>Clauses\<close>

datatype ClauseProvenance = FileDefinedClause int string

record Atom =
  predicate :: Predicate
  terms :: "Term list"
  weight :: pynum
  provenance :: "ClauseProvenance option"

record Literal = Atom +
  negated :: bool

datatype pred_arg = ByName string | ByPredicate Predicate

text \<open>
  \<^verbatim>\<open>Atom.__init__(predicate, *args, weight, provenance)\<close>: the arity check comes
  first, then \<^verbatim>\<open>build_terms\<close>.
\<close>

definition Atom_init ::
  "pred_arg \<Rightarrow> arg list \<Rightarrow> pynum \<Rightarrow> ClauseProvenance option \<Rightarrow> error + Atom" where
  "Atom_init p args w prov =
     (case p of
        ByPredicate pr \<Rightarrow>
          if pred_arity pr \<noteq> int (length args)
          then Inl (AtomMalformedException (pred_arity pr) (int (length args)))
          else (case build_terms args of
                  Inl e \<Rightarrow> Inl e
                | Inr ts \<Rightarrow> Inr \<lparr>predicate = pr, terms = ts, weight = w, provenance = prov\<rparr>)
      | ByName n \<Rightarrow>
          (case build_terms args of
             Inl e \<Rightarrow> Inl e
           | Inr ts \<Rightarrow> Inr \<lparr>predicate = Predicate n (int (length args)), terms = ts,
                            weight = w, provenance = prov\<rparr>))"

definition Literal_init :: "'a Atom_scheme \<Rightarrow> bool \<Rightarrow> error + Literal" where
  "Literal_init a neg =
     (case Atom_init (ByPredicate (predicate a)) (map ArgTerm (terms a)) (PyFloat 1)
             (provenance a) of
        Inl e \<Rightarrow> Inl e
      | Inr b \<Rightarrow> Inr \<lparr>predicate = predicate b, terms = terms b, weight = weight b,
                       provenance = provenance b, negated = neg\<rparr>)"

section \<open>Term types\<close>

record TermType =
  variable :: bool
  number :: "bool option"

definition is_compatible :: "TermType \<Rightarrow> TermType \<Rightarrow> bool" where
  "is_compatible self other =
     (if number self = None then True
      else if number other = None then True
      else number self = number other)"

text \<open>
  Python's \<^verbatim>\<open>a or b\<close> is \<open>a\<close> when \<open>a\<close> is truthy and \<open>b\<close> otherwise; of
  \<^verbatim>\<open>None\<close>, \<^verbatim>\<open>False\<close> and \<^verbatim>\<open>True\<close> only \<^verbatim>\<open>True\<close> is truthy.
\<close>

definition number_or :: "bool option \<Rightarrow> bool option \<Rightarrow> bool option" where
  "number_or a b = (if a = Some True then a else b)"

definition update_type :: "TermType \<Rightarrow> TermType \<Rightarrow> TermType option" where
  "update_type self other =
     (if \<not> is_compatible self other then None
      else Some \<lparr>variable = (if variable self then variable self else variable other),
                 number = number_or (number self) (number other)\<rparr>)"

section \<open>Term ordering\<close>

text \<open>Python compares strings by code point, a proper prefix being smaller.\<close>

fun str_lt :: "string \<Rightarrow> string \<Rightarrow> bool" where
  "str_lt [] [] = False"
| "str_lt [] (y # ys) = True"
| "str_lt (x # xs) [] = False"
| "str_lt (x # xs) (y # ys) =
     ((of_char x :: nat) < of_char y \<or> (x = y \<and> str_lt xs ys))"

datatype cmp_op = Lt | Le | Gt | Ge

text \<open>
  Ordering two key elements: two strings, or two numbers; ordering a string against a
  number raises \<^verbatim>\<open>TypeError\<close>.
\<close>

fun pyval_cmp :: "cmp_op \<Rightarrow> pyval \<Rightarrow> pyval \<Rightarrow> error + bool" where
  "pyval_cmp Lt (PStr a) (PStr b) = Inr (str_lt a b)"
| "pyval_cmp Le (PStr a) (PStr b) = Inr (str_lt a b \<or> a = b)"
| "pyval_cmp Gt (PStr a) (PStr b) = Inr (str_lt b a)"
| "pyval_cmp Ge (PStr a) (PStr b) = Inr (str_lt b a \<or> a = b)"
| "pyval_cmp Lt (PNum a) (PNum b) = Inr (a < b)"
| "pyval_cmp Le (PNum a) (PNum b) = Inr (a \<le> b)"
| "pyval_cmp Gt (PNum a) (PNum b) = Inr (a > b)"
| "pyval_cmp Ge (PNum a) (PNum b) = Inr (a \<ge> b)"
| "pyval_cmp op a b = Inl TypeError"

text \<open>
  Python's tuple comparison: the first pair of elements that are not \<^verbatim>\<open>==\<close> decides by
  the operator; when one tuple runs out, the lengths decide.
\<close>

fun tuple_cmp :: "cmp_op \<Rightarrow> pyval list \<Rightarrow> pyval list \<Rightarrow> error + bool" where
  "tuple_cmp op [] [] = Inr (op = Le \<or> op = Ge)"
| "tuple_cmp op [] (y # ys) = Inr (op = Lt \<or> op = Le)"
| "tuple_cmp op (x # xs) [] = Inr (op = Gt \<or> op = Ge)"
| "tuple_cmp op (x # xs) (y # ys) =
     (if x = y then tuple_cmp op xs ys else pyval_cmp op x y)"

text \<open>The tuple \<^verbatim>\<open>(len(key),) + key\<close>.\<close>

definition len_key :: "Term \<Rightarrow> pyval list" where
  "len_key t = PNum (of_nat (length (term_key t))) # term_key t"

text \<open>
  \<^verbatim>\<open>Term.__lt__\<close> compares \<^verbatim>\<open>(len(key),) + key\<close>; \<^verbatim>\<open>__le__\<close>, \<^verbatim>\<open>__gt__\<close> and
  \<^verbatim>\<open>__ge__\<close> compare the keys themselves.
\<close>

fun term_cmp :: "cmp_op \<Rightarrow> Term \<Rightarrow> Term \<Rightarrow> error + bool" where
  "term_cmp Lt a b = tuple_cmp Lt (len_key a) (len_key b)"
| "term_cmp Le a b = tuple_cmp Le (term_key a) (term_key b)"
| "term_cmp Gt a b = tuple_cmp Gt (term_key a) (term_key b)"
| "term_cmp Ge a b = tuple_cmp Ge (term_key a) (term_key b)"

section \<open>Equality and hashing of clauses\<close>

record AtomClause =
  atom :: Atom
  ac_provenance :: "ClauseProvenance option"

text \<open>
  An atom clause holds its own copy of the atom; a Horn clause holds a head atom and the
  list of its body literals, an empty body being the empty list.
\<close>

record HornClause =
  head :: Atom
  body :: "Literal list"
  hc_provenance :: "ClauseProvenance option"

datatype Clause =
    CAtom Atom
  | CLiteral Literal
  | CAtomClause AtomClause
  | CHornClause HornClause

text \<open>
  An element of the \<^verbatim>\<open>key()\<close> tuple of a clause: a weight, a negation flag, a
  predicate, or the tuple of terms. Python's \<^verbatim>\<open>bool\<close> is an \<^verbatim>\<open>int\<close>, so a flag
  equals the number 0 or 1.
\<close>

datatype kelem = KNum rat | KBool bool | KPred Predicate | KTerms "Term list"

fun kelem_eq :: "kelem \<Rightarrow> kelem \<Rightarrow> bool" where
  "kelem_eq (KNum a) (KNum b) = (a = b)"
| "kelem_eq (KBool a) (KBool b) = (a = b)"
| "kelem_eq (KBool a) (KNum b) = (of_bool a = b)"
| "kelem_eq (KNum a) (KBool b) = (a = of_bool b)"
| "kelem_eq (KPred p) (KPred q) = pred_eq p q"
| "kelem_eq (KTerms xs) (KTerms ys) = list_all2 term_eq xs ys"
| "kelem_eq x y = False"

definition atom_key :: "'a Atom_scheme \<Rightarrow> kelem list" where
  "atom_key a = [KNum (num_val (weight a)), KPred (predicate a), KTerms (terms a)]"

definition literal_key :: "Literal \<Rightarrow> kelem list" where
  "literal_key l = KBool (negated l) # atom_key l"

fun clause_key :: "Clause \<Rightarrow> kelem list" where
  "clause_key (CAtom a) = atom_key a"
| "clause_key (CLiteral l) = literal_key l"
| "clause_key (CAtomClause c) = atom_key (atom c)"
| "clause_key (CHornClause h) = atom_key (head h) @ concat (map literal_key (body h))"

text \<open>\<^verbatim>\<open>isinstance(other, self.__class__)\<close>; \<^verbatim>\<open>Literal\<close> is a subclass of \<^verbatim>\<open>Atom\<close>.\<close>

fun clause_isinstance :: "Clause \<Rightarrow> Clause \<Rightarrow> bool" where
  "clause_isinstance (CAtom b) (CAtom a) = True"
| "clause_isinstance (CLiteral b) (CAtom a) = True"
| "clause_isinstance (CLiteral b) (CLiteral a) = True"
| "clause_isinstance (CAtomClause b) (CAtomClause a) = True"
| "clause_isinstance (CHornClause b) (CHornClause a) = True"
| "clause_isinstance other self = False"

definition clause_dunder_eq :: "Clause \<Rightarrow> Clause \<Rightarrow> bool" where
  "clause_dunder_eq self other =
     (if clause_isinstance other self
      then list_all2 kelem_eq (clause_key self) (clause_key other) else False)"

fun proper_subclass :: "Clause \<Rightarrow> Clause \<Rightarrow> bool" where
  "proper_subclass (CLiteral w) (CAtom v) = True"
| "proper_subclass w v = False"

text \<open>The operator \<^verbatim>\<open>v == w\<close> on clauses, with the same dispatch as for predicates.\<close>

definition clause_eq :: "Clause \<Rightarrow> Clause \<Rightarrow> bool" where
  "clause_eq v w =
     (if proper_subclass w v then clause_dunder_eq w v else clause_dunder_eq v w)"

text \<open>
  \<^verbatim>\<open>hash\<close>. Python's own hashes are parameters: \<open>hs\<close> of a string, \<open>hn\<close> of a
  number (a function of its value, and a flag hashes as 0 or 1), \<open>ht\<close> of a tuple (a
  function of the hashes of its elements).
\<close>

fun pyval_hash :: "(string \<Rightarrow> int) \<Rightarrow> (rat \<Rightarrow> int) \<Rightarrow> pyval \<Rightarrow> int" where
  "pyval_hash hs hn (PStr s) = hs s"
| "pyval_hash hs hn (PNum r) = hn r"

definition term_hash ::
  "(string \<Rightarrow> int) \<Rightarrow> (rat \<Rightarrow> int) \<Rightarrow> (int list \<Rightarrow> int) \<Rightarrow> Term \<Rightarrow> int" where
  "term_hash hs hn ht t = ht (map (pyval_hash hs hn) (term_key t))"

definition pred_hash ::
  "(string \<Rightarrow> int) \<Rightarrow> (rat \<Rightarrow> int) \<Rightarrow> (int list \<Rightarrow> int) \<Rightarrow> Predicate \<Rightarrow> int" where
  "pred_hash hs hn ht p = ht [hs (pred_name p), hn (of_int (pred_arity p))]"

fun kelem_hash ::
  "(string \<Rightarrow> int) \<Rightarrow> (rat \<Rightarrow> int) \<Rightarrow> (int list \<Rightarrow> int) \<Rightarrow> kelem \<Rightarrow> int" where
  "kelem_hash hs hn ht (KNum r) = hn r"
| "kelem_hash hs hn ht (KBool b) = hn (of_bool b)"
| "kelem_hash hs hn ht (KPred p) = pred_hash hs hn ht p"
| "kelem_hash hs hn ht (KTerms ts) = ht (map (term_hash hs hn ht) ts)"

definition clause_hash ::
  "(string \<Rightarrow> int) \<Rightarrow> (rat \<Rightarrow> int) \<Rightarrow> (int list \<Rightarrow> int) \<Rightarrow> Clause \<Rightarrow> int" where
  "clause_hash hs hn ht c = ht (map (kelem_hash hs hn ht) (clause_key c))"

text \<open>The same clause with every provenance attribute, nested ones too, set to \<^verbatim>\<open>None\<close>.\<close>

definition atom_without_provenance :: "'a Atom_scheme \<Rightarrow> 'a Atom_scheme" where
  "atom_without_provenance a = a\<lparr>provenance := None\<rparr>"

fun without_provenance :: "Clause \<Rightarrow> Clause" where
  "without_provenance (CAtom a) = CAtom (atom_without_provenance a)"
| "without_provenance (CLiteral l) = CLiteral (atom_without_provenance l)"
| "without_provenance (CAtomClause c) =
     CAtomClause \<lparr>atom = atom_without_provenance (atom c), ac_provenance = None\<rparr>"
| "without_provenance (CHornClause h) =
     CHornClause \<lparr>head = atom_without_provenance (head h),
                  body = map atom_without_provenance (body h), hc_provenance = None\<rparr>"

section \<open>Rendering\<close>

definition WEIGHT_SEPARATOR :: string where "WEIGHT_SEPARATOR = ''::''"
definition NEGATION_KEY :: string where "NEGATION_KEY = ''not''"
definition IMPLICATION_SIGN :: string where "IMPLICATION_SIGN = '':-''"
definition END_SIGN :: string where "END_SIGN = ''.''"

definition atom_repr :: "(pynum \<Rightarrow> string) \<Rightarrow> 'a Atom_scheme \<Rightarrow> string" where
  "atom_repr fmt a =
     (if length (terms a) = 0
      then (if num_val (weight a) = 1 then pred_name (predicate a)
            else fmt (weight a) @ ''::'' @ pred_name (predicate a))
      else (let atm = pred_name (predicate a) @ ''('' @
                        str_join '', '' (map (term_str fmt) (terms a)) @ '')''
            in if num_val (weight a) \<noteq> 1 then fmt (weight a) @ WEIGHT_SEPARATOR @ atm
               else atm))"

definition literal_repr :: "(pynum \<Rightarrow> string) \<Rightarrow> Literal \<Rightarrow> string" where
  "literal_repr fmt l =
     (let atm = atom_repr fmt l
      in if negated l then NEGATION_KEY @ '' '' @ atm else atm)"

text \<open>
  Iterating over an atom or literal: the class has \<^verbatim>\<open>__getitem__\<close>
  (\<^verbatim>\<open>self.terms[item]\<close>) and no \<^verbatim>\<open>__iter__\<close>, so Python asks for the items 0, 1, ...
  until \<^verbatim>\<open>IndexError\<close>: the iteration yields the terms.
\<close>

definition atom_iter :: "'a Atom_scheme \<Rightarrow> Term list" where
  "atom_iter a = terms a"

text \<open>
  \<^verbatim>\<open>format_horn_clause(head, body)\<close>. For an empty body the local name \<^verbatim>\<open>body\<close> is
  bound to the literal \<^verbatim>\<open>Literal(Atom("true"))\<close> itself, not to a list holding it, and
  the \<^verbatim>\<open>join\<close> iterates over that literal.
\<close>

definition format_horn_clause ::
  "(pynum \<Rightarrow> string) \<Rightarrow> Atom \<Rightarrow> Literal list \<Rightarrow> error + string" where
  "format_horn_clause fmt hd_atom bdy =
     (case (if bdy = []
            then (case Atom_init (ByName ''true'') [] (PyFloat 1) None of
                    Inl e \<Rightarrow> Inl e
                  | Inr t \<Rightarrow> (case Literal_init t False of
                                Inl e \<Rightarrow> Inl e
                              | Inr l \<Rightarrow> Inr (map (term_str fmt) (atom_iter l))))
            else Inr (map (literal_repr fmt) bdy)) of
        Inl e \<Rightarrow> Inl e
      | Inr items \<Rightarrow>
          Inr (atom_repr fmt hd_atom @ '' '' @ IMPLICATION_SIGN @ '' '' @
               str_join '', '' items @ END_SIGN))"

definition HornClause_repr :: "(pynum \<Rightarrow> string) \<Rightarrow> HornClause \<Rightarrow> error + string" where
  "HornClause_repr fmt h = format_horn_clause fmt (head h) (body h)"

section \<open>Structural algorithms\<close>

definition variable_terms :: "int \<Rightarrow> Term list" where
  "variable_terms n = map (\<lambda>i. Variable (''X'' @ str_nat i)) [0..<nat n]"

datatype atom_like = VPredicate Predicate | VAtom Atom | VLiteral Literal

definition get_variable_atom :: "atom_like \<Rightarrow> error + Clause" where
  "get_variable_atom v =
     (let p = (case v of VPredicate p \<Rightarrow> p | VAtom a \<Rightarrow> predicate a
                       | VLiteral l \<Rightarrow> predicate l)
      in case Atom_init (ByPredicate p) (map ArgTerm (variable_terms (pred_arity p)))
                (PyFloat 1) None of
           Inl e \<Rightarrow> Inl e
         | Inr variable_atom \<Rightarrow>
             (case v of
                VLiteral l \<Rightarrow>
                  (case Literal_init variable_atom (negated l) of
                     Inl e \<Rightarrow> Inl e | Inr lit \<Rightarrow> Inr (CLiteral lit))
              | _ \<Rightarrow> Inr (CAtom variable_atom)))"

text \<open>
  A Python \<^verbatim>\<open>dict\<close> keyed by terms, in insertion order; a key is found through
  \<^verbatim>\<open>__hash__\<close> and \<^verbatim>\<open>__eq__\<close>, that is, when its key tuple equals the one sought.
\<close>

fun dict_get :: "(Term \<times> 'v) list \<Rightarrow> Term \<Rightarrow> 'v option" where
  "dict_get [] t = None"
| "dict_get ((k, v) # d) t = (if term_eq k t then Some v else dict_get d t)"

fun rename_terms :: "Term list \<Rightarrow> nat \<Rightarrow> (Term \<times> string) list \<Rightarrow> arg list" where
  "rename_terms [] index term_map = []"
| "rename_terms (t # ts) index term_map =
     (if is_constant t
      then (case t of
              Quote v tmpl q \<Rightarrow> ArgTerm (Constant v)
            | _ \<Rightarrow> ArgTerm t) # rename_terms ts index term_map
      else (case dict_get term_map t of
              None \<Rightarrow>
                ArgStr (''X'' @ str_nat index) #
                rename_terms ts (index + 1) (term_map @ [(t, ''X'' @ str_nat index)])
            | Some nm \<Rightarrow> ArgStr nm # rename_terms ts index term_map))"

definition get_renamed_atom :: "'a Atom_scheme \<Rightarrow> error + Atom" where
  "get_renamed_atom a =
     Atom_init (ByPredicate (predicate a)) (rename_terms (terms a) 0 []) (PyFloat 1) None"

definition py_index :: "'a list \<Rightarrow> nat \<Rightarrow> error + 'a" where
  "py_index xs i = (if i < length xs then Inr (xs ! i) else Inl IndexError)"

fun substitution_loop ::
  "Term list \<Rightarrow> Term list \<Rightarrow> nat list \<Rightarrow> (Term \<times> Term) list
   \<Rightarrow> error + (Term \<times> Term) list option" where
  "substitution_loop gs ss [] substitutions = Inr (Some substitutions)"
| "substitution_loop gs ss (i # is) substitutions =
     (case py_index gs i of
        Inl e \<Rightarrow> Inl e
      | Inr generic_term \<Rightarrow>
          (case py_index ss i of
             Inl e \<Rightarrow> Inl e
           | Inr specific_term \<Rightarrow>
               if is_constant generic_term \<and> \<not> term_eq generic_term specific_term
               then Inr None
               else (case dict_get substitutions generic_term of
                       None \<Rightarrow>
                         substitution_loop gs ss is
                           (substitutions @ [(generic_term, specific_term)])
                     | Some substitution \<Rightarrow>
                         if \<not> term_eq substitution specific_term then Inr None
                         else substitution_loop gs ss is substitutions)))"

text \<open>
  \<^verbatim>\<open>get_substitution\<close>: \<open>Inr None\<close> is the answer \<^verbatim>\<open>None\<close> (no unifier),
  \<open>Inr (Some d)\<close> the dictionary returned, \<open>Inl e\<close> an exception.
\<close>

definition get_substitution ::
  "'a Atom_scheme \<Rightarrow> 'b Atom_scheme \<Rightarrow> error + (Term \<times> Term) list option" where
  "get_substitution generic_atom specific_atom =
     (if pred_ne (predicate generic_atom) (predicate specific_atom) then Inr None
      else substitution_loop (terms generic_atom) (terms specific_atom)
             [0..<nat (pred_arity (predicate generic_atom))] [])"

definition is_grounded :: "'a Atom_scheme \<Rightarrow> bool" where
  "is_grounded a = list_all is_constant (terms a)"

section \<open>Canonical form of an atom, as the specification words it\<close>

text \<open>
  The renaming described in words: a constant term is kept, a constant \<^verbatim>\<open>Quote\<close>
  becoming the \<^verbatim>\<open>Constant\<close> of its unquoted text.
\<close>

definition keep_constant :: "Term \<Rightarrow> Term" where
  "keep_constant t = (case t of Quote v tmpl q \<Rightarrow> Constant v | _ \<Rightarrow> t)"

text \<open>
  A non-constant term is replaced by \<^verbatim>\<open>X\<close> followed by the number of distinct
  non-constant terms that occur before its first occurrence.
\<close>

definition canonical_index :: "Term list \<Rightarrow> Term \<Rightarrow> nat" where
  "canonical_index ts t =
     length (remdups (map term_key (filter (\<lambda>u. \<not> is_constant u)
       (takeWhile (\<lambda>u. is_constant u \<or> \<not> term_eq u t) ts))))"

definition canonical_terms :: "Term list \<Rightarrow> Term list" where
  "canonical_terms ts =
     map (\<lambda>t. if is_constant t then keep_constant t
              else Variable (''X'' @ str_nat (canonical_index ts t))) ts"

text \<open>
  Two term sequences that are identical except for variable names: the same length, constant
  terms at the same positions and equal there, and the same positions sharing a non-constant
  term.
\<close>

definition same_shape :: "Term list \<Rightarrow> Term list \<Rightarrow> bool" where
  "same_shape ts us =
     (length ts = length us
      \<and> list_all (\<lambda>i. is_constant (ts ! i) = is_constant (us ! i)
                       \<and> (is_constant (ts ! i) \<longrightarrow> term_eq (ts ! i) (us ! i))) [0..<length ts]
      \<and> list_all (\<lambda>i. list_all (\<lambda>j.
            \<not> is_constant (ts ! i) \<and> \<not> is_constant (ts ! j) \<longrightarrow>
            term_eq (ts ! i) (ts ! j) = term_eq (us ! i) (us ! j)) [0..<length ts])
          [0..<length ts])"

text \<open>
  For the proofs: the keys of the non-constant terms of a sequence, the test that passes
  every term before the first occurrence of \<open>t\<close>, the argument the renaming loop emits
  for a term, and the state of the loop after the prefix \<open>ps\<close>.
\<close>

abbreviation nonconst_keys :: "Term list \<Rightarrow> pyval list set" where
  "nonconst_keys ps \<equiv> set (map term_key (filter (\<lambda>u. \<not> is_constant u) ps))"

abbreviation stops_at :: "Term \<Rightarrow> Term \<Rightarrow> bool" where
  "stops_at t \<equiv> (\<lambda>u. is_constant u \<or> \<not> term_eq u t)"

definition canonical_arg :: "Term list \<Rightarrow> Term \<Rightarrow> arg" where
  "canonical_arg ts t =
     (if is_constant t then ArgTerm (keep_constant t)
      else ArgStr (''X'' @ str_nat (canonical_index ts t)))"

definition rename_inv :: "(Term \<times> string) list \<Rightarrow> nat \<Rightarrow> Term list \<Rightarrow> bool" where
  "rename_inv m idx ps =
     (idx = card (nonconst_keys ps)
      \<and> (\<forall>t. dict_get m t =
             (if term_key t \<in> nonconst_keys ps
              then Some (''X'' @ str_nat (canonical_index ps t)) else None)))"



section \<open>Properties\<close>

lemma build_terms_of_terms: "build_terms (map ArgTerm ts) = Inr ts"
  by (induction ts) simp_all

text \<open>
  C3. A \<^verbatim>\<open>ListTerms\<close> value reports \<^verbatim>\<open>is_constant()\<close> true whatever its items are,
  and \<^verbatim>\<open>is_template()\<close> true exactly when one of its items is a template; so
  \<^verbatim>\<open>is_constant()\<close> is the negation of \<^verbatim>\<open>is_template()\<close> exactly when no item is a
  template.
\<close>

theorem ListTerms_is_constant_always:
  "is_constant (ListTerms items v)
   \<and> is_template (ListTerms items v) = (\<exists>t \<in> set items. is_template t)
   \<and> ((is_constant (ListTerms items v) = (\<not> is_template (ListTerms items v)))
        = (\<not> (\<exists>t \<in> set items. is_template t)))"
  by (simp add: list_ex_iff)

theorem ListTerms_is_constant_always_witness:
  "is_constant (ListTerms [Constant ''a'', TemplateTerm [''{x}'']] ''[a, {x}]'')
   \<and> is_template (ListTerms [Constant ''a'', TemplateTerm [''{x}'']] ''[a, {x}]'')"
  using ListTerms_is_constant_always
    [of "[Constant ''a'', TemplateTerm [''{x}'']]" "''[a, {x}]''"]
  by simp

theorem ListTerms_is_constant_counterexample:
  "\<not> (is_constant (ListTerms [TemplateTerm [''{x}'']] ''[{x}]'')
        = (\<not> list_ex is_template [TemplateTerm [''{x}'']]))
   \<and> \<not> (is_constant (ListTerms [TemplateTerm [''{x}'']] ''[{x}]'')
        = (\<not> is_template (ListTerms [TemplateTerm [''{x}'']] ''[{x}]'')))"
  by simp

text \<open>
  C8. Constructing \<^verbatim>\<open>Atom(p, *terms)\<close> from a predicate whose arity is the number
  of already-built terms succeeds and stores them; whenever the number of arguments
  differs from the arity, the construction raises \<^verbatim>\<open>AtomMalformedException\<close> with the
  arity as expected and the number of arguments as found, before any argument is looked at.
\<close>

theorem Atom_init_arity_check:
  "(pred_arity p = int (length ts) \<longrightarrow>
      Atom_init (ByPredicate p) (map ArgTerm ts) w prov
        = Inr \<lparr>predicate = p, terms = ts, weight = w, provenance = prov\<rparr>)
   \<and> (pred_arity p \<noteq> int (length args) \<longrightarrow>
      Atom_init (ByPredicate p) args w prov
        = Inl (AtomMalformedException (pred_arity p) (int (length args))))"
  by (simp add: Atom_init_def build_terms_of_terms)

theorem Atom_init_arity_check_witness:
  "pred_arity (Predicate ''parent'' 2) = int (length [Constant ''ann'', Constant ''bob''])
   \<and> Atom_init (ByPredicate (Predicate ''parent'' 2))
        (map ArgTerm [Constant ''ann'', Constant ''bob'']) (PyFloat 1) None
      = Inr \<lparr>predicate = Predicate ''parent'' 2, terms = [Constant ''ann'', Constant ''bob''],
             weight = PyFloat 1, provenance = None\<rparr>
   \<and> pred_arity (Predicate ''parent'' 2) \<noteq> int (length [ArgStr ''ann''])
   \<and> Atom_init (ByPredicate (Predicate ''parent'' 2)) [ArgStr ''ann''] (PyFloat 1) None
      = Inl (AtomMalformedException 2 1)"
  using Atom_init_arity_check [of "Predicate ''parent'' 2" "[Constant ''ann'', Constant ''bob'']"
      "PyFloat 1" None "[ArgStr ''ann'']"]
  by simp

text \<open>
  C5. \<^verbatim>\<open>update_type\<close> is claimed commutative on compatible pairs. The types
  \<^verbatim>\<open>TermType(False, False)\<close> and \<^verbatim>\<open>TermType(False, None)\<close> are compatible in both
  orders, yet merging them gives \<^verbatim>\<open>number = None\<close> in one order and
  \<^verbatim>\<open>number = False\<close> in the other: \<^verbatim>\<open>False or None\<close> is \<^verbatim>\<open>None\<close>, while
  \<^verbatim>\<open>None or False\<close> is \<^verbatim>\<open>False\<close>.
\<close>

theorem update_type_not_commutative:
  "is_compatible \<lparr>variable = False, number = Some False\<rparr> \<lparr>variable = False, number = None\<rparr>
   \<and> is_compatible \<lparr>variable = False, number = None\<rparr> \<lparr>variable = False, number = Some False\<rparr>
   \<and> update_type \<lparr>variable = False, number = Some False\<rparr> \<lparr>variable = False, number = None\<rparr>
       = Some \<lparr>variable = False, number = None\<rparr>
   \<and> update_type \<lparr>variable = False, number = None\<rparr> \<lparr>variable = False, number = Some False\<rparr>
       = Some \<lparr>variable = False, number = Some False\<rparr>"
  by (simp add: update_type_def is_compatible_def number_or_def)

text \<open>The other two parts of that sentence hold on the code.\<close>

lemma update_type_idempotent: "update_type t t = Some t"
  by (cases t) (auto simp: update_type_def is_compatible_def number_or_def)

lemma update_type_incompatible:
  "number s = Some True \<Longrightarrow> number t = Some False \<Longrightarrow>
   update_type s t = None \<and> update_type t s = None"
  by (simp add: update_type_def is_compatible_def)

text \<open>
  C6. Every comparison of two terms is claimed to agree with comparing
  \<^verbatim>\<open>(len(key), key)\<close>. Only \<^verbatim>\<open>__lt__\<close> does: for \<^verbatim>\<open>Variable("A")\<close>, whose key has
  two elements, and \<^verbatim>\<open>Constant("z")\<close>, whose key has one, \<^verbatim>\<open>>\<close> answers false where
  the length-first comparison answers true, and \<^verbatim>\<open><=\<close> answers true where it answers
  false (while \<^verbatim>\<open><\<close> answers false and the two terms are not equal).
\<close>

theorem term_gt_ignores_key_length:
  "term_cmp Gt (Variable ''A'') (Constant ''z'') = Inr False
   \<and> tuple_cmp Gt (len_key (Variable ''A'')) (len_key (Constant ''z'')) = Inr True
   \<and> term_cmp Le (Variable ''A'') (Constant ''z'') = Inr True
   \<and> tuple_cmp Le (len_key (Variable ''A'')) (len_key (Constant ''z'')) = Inr False
   \<and> term_cmp Lt (Variable ''A'') (Constant ''z'') = Inr False
   \<and> \<not> term_eq (Variable ''A'') (Constant ''z'')"
  by (simp add: len_key_def term_eq_def)

text \<open>
  C4. A Horn clause with an empty body is claimed to render as the head followed by
  \<^verbatim>\<open> :- true.\<close>. The code renders the head followed by \<^verbatim>\<open> :- .\<close>: the stand-in
  literal \<^verbatim>\<open>true\<close> is iterated over, not printed, and it has no terms.
\<close>

theorem format_horn_clause_empty_body:
  "format_horn_clause fmt h [] = Inr (atom_repr fmt h @ '' :- .'')
   \<and> format_horn_clause fmt h [] \<noteq> Inr (atom_repr fmt h @ '' :- true.'')"
  by (simp add: format_horn_clause_def Atom_init_def Literal_init_def atom_iter_def
      IMPLICATION_SIGN_def END_SIGN_def)

lemma HornClause_repr_fact:
  "HornClause_repr fmt
     \<lparr>head = \<lparr>predicate = Predicate ''fact'' 1, terms = [Constant ''a''],
              weight = PyFloat 1, provenance = None\<rparr>,
      body = [], hc_provenance = None\<rparr> = Inr ''fact(a) :- .''"
  by (simp add: HornClause_repr_def format_horn_clause_def Atom_init_def Literal_init_def
      atom_iter_def IMPLICATION_SIGN_def END_SIGN_def atom_repr_def)

subsection \<open>Equality and hashing\<close>

lemma term_eq_hash: "term_eq s t \<Longrightarrow> term_hash hs hn ht s = term_hash hs hn ht t"
  by (simp add: term_eq_def term_hash_def)

lemma terms_eq_hash:
  "list_all2 term_eq xs ys \<Longrightarrow> map (term_hash hs hn ht) xs = map (term_hash hs hn ht) ys"
  by (induction rule: list_all2_induct) (simp_all add: term_eq_hash)

lemma pred_eq_key: "pred_eq p q \<Longrightarrow> pred_key p = pred_key q"
  by (auto simp: pred_eq_def pred_dunder_eq_def split: if_splits)

lemma pred_eq_hash: "pred_eq p q \<Longrightarrow> pred_hash hs hn ht p = pred_hash hs hn ht q"
  using pred_eq_key [of p q] by (simp add: pred_hash_def pred_key_def)

lemma kelem_eq_hash: "kelem_eq x y \<Longrightarrow> kelem_hash hs hn ht x = kelem_hash hs hn ht y"
  by (cases x; cases y) (auto simp: pred_eq_hash terms_eq_hash [of _ _ hs hn ht])

lemma key_eq_hash:
  "list_all2 kelem_eq ks ls \<Longrightarrow> map (kelem_hash hs hn ht) ks = map (kelem_hash hs hn ht) ls"
  by (induction rule: list_all2_induct) (simp_all add: kelem_eq_hash)

lemma clause_eq_keys: "clause_eq x y \<Longrightarrow> list_all2 kelem_eq (clause_key x) (clause_key y) \<or> list_all2 kelem_eq (clause_key y) (clause_key x)"
  by (auto simp: clause_eq_def clause_dunder_eq_def split: if_splits)

text \<open>
  C7. Equality implies equal hashes, for terms and for atoms, literals, atom clauses and
  Horn clauses (whatever Python's hashes of strings, numbers and tuples are); and
  \<^verbatim>\<open>Variable("X")\<close> is not equal to \<^verbatim>\<open>Constant("X")\<close>.
\<close>

theorem eq_implies_equal_hash:
  "(term_eq s t \<longrightarrow> term_hash hs hn ht s = term_hash hs hn ht t)
   \<and> (clause_eq x y \<longrightarrow> clause_hash hs hn ht x = clause_hash hs hn ht y)
   \<and> \<not> term_eq (Variable ''X'') (Constant ''X'')"
proof (intro conjI impI)
  assume "term_eq s t"
  then show "term_hash hs hn ht s = term_hash hs hn ht t" by (rule term_eq_hash)
next
  assume "clause_eq x y"
  from clause_eq_keys [OF this]
  have "map (kelem_hash hs hn ht) (clause_key x) = map (kelem_hash hs hn ht) (clause_key y)"
    using key_eq_hash [of "clause_key x" "clause_key y" hs hn ht]
      key_eq_hash [of "clause_key y" "clause_key x" hs hn ht] by auto
  then show "clause_hash hs hn ht x = clause_hash hs hn ht y"
    by (simp add: clause_hash_def)
next
  show "\<not> term_eq (Variable ''X'') (Constant ''X'')" by (simp add: term_eq_def)
qed

theorem eq_implies_equal_hash_witness:
  "term_eq (Number (PyInt 1)) (Number (PyFloat 1))
   \<and> term_hash (\<lambda>s. int (length s)) (\<lambda>r. \<lfloor>r\<rfloor>) sum_list (Number (PyInt 1))
       = term_hash (\<lambda>s. int (length s)) (\<lambda>r. \<lfloor>r\<rfloor>) sum_list (Number (PyFloat 1))
   \<and> clause_eq
        (CLiteral \<lparr>predicate = Predicate ''p'' 1, terms = [Constant ''a''],
                   weight = PyFloat 1, provenance = None, negated = True\<rparr>)
        (CLiteral \<lparr>predicate = Predicate ''p'' 1, terms = [Quote ''a'' False (CHR 0x27)],
                   weight = PyInt 1, provenance = None, negated = True\<rparr>)
   \<and> clause_hash (\<lambda>s. int (length s)) (\<lambda>r. \<lfloor>r\<rfloor>) sum_list
        (CLiteral \<lparr>predicate = Predicate ''p'' 1, terms = [Constant ''a''],
                   weight = PyFloat 1, provenance = None, negated = True\<rparr>)
       = clause_hash (\<lambda>s. int (length s)) (\<lambda>r. \<lfloor>r\<rfloor>) sum_list
        (CLiteral \<lparr>predicate = Predicate ''p'' 1, terms = [Quote ''a'' False (CHR 0x27)],
                   weight = PyInt 1, provenance = None, negated = True\<rparr>)"
  using eq_implies_equal_hash [of "Number (PyInt 1)" "Number (PyFloat 1)"
      "\<lambda>s. int (length s)" "\<lambda>r. \<lfloor>r\<rfloor>" sum_list
      "CLiteral \<lparr>predicate = Predicate ''p'' 1, terms = [Constant ''a''],
                 weight = PyFloat 1, provenance = None, negated = True\<rparr>"
      "CLiteral \<lparr>predicate = Predicate ''p'' 1, terms = [Quote ''a'' False (CHR 0x27)],
                 weight = PyInt 1, provenance = None, negated = True\<rparr>"]
  by (simp add: term_eq_def clause_eq_def clause_dunder_eq_def literal_key_def atom_key_def
      pred_eq_def pred_dunder_eq_def)


lemma atom_key_without_provenance [simp]: "atom_key (atom_without_provenance a) = atom_key a"
  by (simp add: atom_key_def atom_without_provenance_def)

lemma literal_key_without_provenance [simp]:
  "literal_key (atom_without_provenance l) = literal_key l"
  by (simp add: literal_key_def atom_key_def atom_without_provenance_def)

lemma clause_key_without_provenance [simp]:
  "clause_key (without_provenance c) = clause_key c"
  by (cases c) (simp_all add: comp_def)

lemma clause_isinstance_without_provenance [simp]:
  "clause_isinstance (without_provenance c) d = clause_isinstance c d"
  "clause_isinstance c (without_provenance d) = clause_isinstance c d"
  by (cases c; cases d; simp)+

lemma proper_subclass_without_provenance [simp]:
  "proper_subclass (without_provenance c) d = proper_subclass c d"
  "proper_subclass c (without_provenance d) = proper_subclass c d"
  by (cases c; cases d; simp)+

lemma clause_eq_without_provenance:
  "clause_eq (without_provenance c) d = clause_eq c d"
  "clause_eq c (without_provenance d) = clause_eq c d"
  by (simp_all add: clause_eq_def clause_dunder_eq_def)

lemma clause_hash_without_provenance:
  "clause_hash hs hn ht (without_provenance c) = clause_hash hs hn ht c"
  by (simp add: clause_hash_def)

lemma atom_eq_iff:
  "clause_eq (CAtom a) (CAtom b) =
     (num_val (weight a) = num_val (weight b) \<and> pred_eq (predicate a) (predicate b)
      \<and> list_all2 term_eq (terms a) (terms b))"
  by (simp add: clause_eq_def clause_dunder_eq_def atom_key_def)

text \<open>
  C10. Two atoms are equal exactly when their weights, predicates and term sequences
  are; replacing the provenance of either changes neither the answer of \<^verbatim>\<open>==\<close> nor
  the hash, and equal atoms with any provenances have equal hashes. For every clause
  kind, erasing every provenance (nested ones too) changes neither equality nor hash.
\<close>

theorem provenance_not_in_key:
  "clause_eq (CAtom a) (CAtom b) =
       (num_val (weight a) = num_val (weight b) \<and> pred_eq (predicate a) (predicate b)
        \<and> list_all2 term_eq (terms a) (terms b))
   \<and> clause_eq (CAtom (a\<lparr>provenance := p\<rparr>)) (CAtom (b\<lparr>provenance := q\<rparr>))
       = clause_eq (CAtom a) (CAtom b)
   \<and> clause_hash hs hn ht (CAtom (a\<lparr>provenance := p\<rparr>)) = clause_hash hs hn ht (CAtom a)
   \<and> (clause_eq (CAtom a) (CAtom b) \<longrightarrow>
        clause_hash hs hn ht (CAtom (a\<lparr>provenance := p\<rparr>))
          = clause_hash hs hn ht (CAtom (b\<lparr>provenance := q\<rparr>)))
   \<and> clause_eq (without_provenance c) (without_provenance d) = clause_eq c d
   \<and> clause_eq (without_provenance c) d = clause_eq c d
   \<and> clause_eq c (without_provenance d) = clause_eq c d
   \<and> clause_hash hs hn ht (without_provenance c) = clause_hash hs hn ht c"
proof -
  have upd: "atom_key (x\<lparr>provenance := r\<rparr>) = atom_key x" for x :: Atom and r
    by (simp add: atom_key_def)
  have e: "clause_eq (CAtom (a\<lparr>provenance := p\<rparr>)) (CAtom (b\<lparr>provenance := q\<rparr>))
       = clause_eq (CAtom a) (CAtom b)"
    by (simp add: clause_eq_def clause_dunder_eq_def upd)
  have h: "clause_hash hs hn ht (CAtom (x\<lparr>provenance := r\<rparr>)) = clause_hash hs hn ht (CAtom x)"
    for x :: Atom and r
    by (simp add: clause_hash_def upd)
  have eh: "clause_eq (CAtom a) (CAtom b) \<Longrightarrow>
        clause_hash hs hn ht (CAtom a) = clause_hash hs hn ht (CAtom b)"
    using key_eq_hash [of "clause_key (CAtom a)" "clause_key (CAtom b)" hs hn ht]
    by (simp add: clause_eq_def clause_dunder_eq_def clause_hash_def)
  show ?thesis
    using e h eh atom_eq_iff [of a b]
    by (simp add: clause_eq_without_provenance clause_hash_without_provenance)
qed

theorem provenance_not_in_key_witness:
  "clause_eq (CAtom \<lparr>predicate = Predicate ''p'' 1, terms = [Constant ''a''],
                      weight = PyFloat 1, provenance = None\<rparr>)
             (CAtom \<lparr>predicate = Predicate ''p'' 1, terms = [Constant ''a''],
                      weight = PyFloat 1, provenance = None\<rparr>)
   \<and> clause_hash (\<lambda>s. int (length s)) (\<lambda>r. \<lfloor>r\<rfloor>) sum_list
        (CAtom \<lparr>predicate = Predicate ''p'' 1, terms = [Constant ''a''],
                 weight = PyFloat 1, provenance = Some (FileDefinedClause 3 ''kb.pl'')\<rparr>)
      = clause_hash (\<lambda>s. int (length s)) (\<lambda>r. \<lfloor>r\<rfloor>) sum_list
        (CAtom \<lparr>predicate = Predicate ''p'' 1, terms = [Constant ''a''],
                 weight = PyFloat 1, provenance = None\<rparr>)"
  using provenance_not_in_key [of
      "\<lparr>predicate = Predicate ''p'' 1, terms = [Constant ''a''],
        weight = PyFloat 1, provenance = None\<rparr>"
      "\<lparr>predicate = Predicate ''p'' 1, terms = [Constant ''a''],
        weight = PyFloat 1, provenance = None\<rparr>"
      "Some (FileDefinedClause 3 ''kb.pl'')" None
      "\<lambda>s. int (length s)" "\<lambda>r. \<lfloor>r\<rfloor>" sum_list]
  by (simp add: term_eq_def pred_eq_def pred_dunder_eq_def)

subsection \<open>Decimal index names\<close>

declare str_nat.simps [simp del]

lemma lt10:
  "(d::nat) < 10 \<Longrightarrow>
   d = 0 \<or> d = 1 \<or> d = 2 \<or> d = 3 \<or> d = 4 \<or> d = 5 \<or> d = 6 \<or> d = 7 \<or> d = 8 \<or> d = 9"
  by presburger

lemma digit_char_code: "d < 10 \<Longrightarrow> (of_char (digit_char d) :: nat) = 48 + d"
  by (drule lt10, elim disjE) (simp_all add: digit_char_def)

lemma digit_char_inj: "a < 10 \<Longrightarrow> b < 10 \<Longrightarrow> (digit_char a = digit_char b) = (a = b)"
  using digit_char_code [of a] digit_char_code [of b] by (metis add_left_cancel)

lemma str_nat_nonempty: "str_nat n \<noteq> []" "[] \<noteq> str_nat n"
  by (subst str_nat.simps, simp)+

lemma str_nat_inj: "str_nat n = str_nat m \<Longrightarrow> n = m"
proof (induction n arbitrary: m rule: str_nat.induct)
  case (1 n)
  show ?case
  proof (cases "n < 10")
    case True
    note n = this
    show ?thesis
    proof (cases "m < 10")
      case True
      with n "1.prems" show ?thesis
        by (simp add: str_nat.simps [of n] str_nat.simps [of m] digit_char_inj)
    next
      case False
      with n "1.prems" show ?thesis
        by (simp add: str_nat.simps [of n] str_nat.simps [of m] str_nat_nonempty)
    qed
  next
    case False
    note n = this
    show ?thesis
    proof (cases "m < 10")
      case True
      with n "1.prems" show ?thesis
        by (simp add: str_nat.simps [of n] str_nat.simps [of m] str_nat_nonempty)
    next
      case False
      with n "1.prems" have eq: "str_nat (n div 10) = str_nat (m div 10)"
        and dg: "digit_char (n mod 10) = digit_char (m mod 10)"
        by (simp_all add: str_nat.simps [of n] str_nat.simps [of m])
      from "1.IH" [OF n eq] have "n div 10 = m div 10" .
      moreover from dg have "n mod 10 = m mod 10" by (simp add: digit_char_inj)
      ultimately show ?thesis by (metis div_mult_mod_eq)
    qed
  qed
qed

subsection \<open>Substitution\<close>

lemma term_eq_refl [simp]: "term_eq t t"
  by (simp add: term_eq_def)

lemma term_eq_sym: "term_eq a b \<Longrightarrow> term_eq b a"
  by (simp add: term_eq_def)

lemma term_eq_trans: "term_eq a b \<Longrightarrow> term_eq b c \<Longrightarrow> term_eq a c"
  by (simp add: term_eq_def)

lemma pred_eq_refl [simp]: "pred_eq p p"
  by (cases p) (simp_all add: pred_eq_def pred_dunder_eq_def)

lemma dict_get_cong: "term_eq t u \<Longrightarrow> dict_get d t = dict_get d u"
  by (induction d) (auto simp: term_eq_def)

lemma dict_get_append:
  "dict_get (d @ [(k, v)]) t =
     (case dict_get d t of Some x \<Rightarrow> Some x
      | None \<Rightarrow> if term_eq k t then Some v else None)"
  by (induction d) auto

lemma substitution_loop_range:
  "substitution_loop gs ss (i # is) d = Inr r \<Longrightarrow> i < length gs \<and> i < length ss"
  by (cases "i < length gs"; cases "i < length ss") (simp_all add: py_index_def)

lemma substitution_loop_Cons:
  "i < length gs \<Longrightarrow> i < length ss \<Longrightarrow>
   substitution_loop gs ss (i # is) d =
     (if is_constant (gs ! i) \<and> \<not> term_eq (gs ! i) (ss ! i) then Inr None
      else (case dict_get d (gs ! i) of
              None \<Rightarrow> substitution_loop gs ss is (d @ [(gs ! i, ss ! i)])
            | Some sub \<Rightarrow>
                if \<not> term_eq sub (ss ! i) then Inr None
                else substitution_loop gs ss is d))"
  by (simp add: py_index_def)

declare substitution_loop.simps(2) [simp del]

lemma substitution_loop_sound:
  "substitution_loop gs ss is d = Inr (Some \<sigma>) \<Longrightarrow>
     (\<forall>t v. dict_get d t = Some v \<longrightarrow> dict_get \<sigma> t = Some v)
     \<and> (\<forall>i \<in> set is. i < length gs \<and> i < length ss
           \<and> (\<exists>v. dict_get \<sigma> (gs ! i) = Some v \<and> term_eq v (ss ! i)))"
proof (induction "is" arbitrary: d)
  case Nil
  then show ?case by simp
next
  case (Cons i "is")
  from substitution_loop_range [OF Cons.prems]
  have ig: "i < length gs" and isp: "i < length ss" by simp_all
  note step = Cons.prems [unfolded substitution_loop_Cons [OF ig isp]]
  show ?case
  proof (cases "dict_get d (gs ! i)")
    case None
    with step
    have run: "substitution_loop gs ss is (d @ [(gs ! i, ss ! i)]) = Inr (Some \<sigma>)"
      by (simp split: if_splits)
    from Cons.IH [OF run]
    have ext: "\<And>t v. dict_get (d @ [(gs ! i, ss ! i)]) t = Some v \<Longrightarrow> dict_get \<sigma> t = Some v"
      and rest: "\<forall>i \<in> set is. i < length gs \<and> i < length ss
           \<and> (\<exists>v. dict_get \<sigma> (gs ! i) = Some v \<and> term_eq v (ss ! i))"
      by blast+
    have "dict_get \<sigma> t = Some v" if "dict_get d t = Some v" for t v
      using ext [of t v] that by (simp add: dict_get_append)
    moreover have "dict_get \<sigma> (gs ! i) = Some (ss ! i)"
      using ext [of "gs ! i" "ss ! i"] None by (simp add: dict_get_append)
    ultimately show ?thesis using rest ig isp by auto
  next
    case (Some sub)
    with step
    have run: "substitution_loop gs ss is d = Inr (Some \<sigma>)" and ok: "term_eq sub (ss ! i)"
      by (simp_all split: if_splits)
    from Cons.IH [OF run]
    have ext: "\<And>t v. dict_get d t = Some v \<Longrightarrow> dict_get \<sigma> t = Some v"
      and rest: "\<forall>i \<in> set is. i < length gs \<and> i < length ss
           \<and> (\<exists>v. dict_get \<sigma> (gs ! i) = Some v \<and> term_eq v (ss ! i))"
      by blast+
    from ext [OF Some] ok have "\<exists>v. dict_get \<sigma> (gs ! i) = Some v \<and> term_eq v (ss ! i)"
      by blast
    with ext rest ig isp show ?thesis by simp
  qed
qed

lemma substitution_loop_fresh:
  "(\<forall>i \<in> set is. i < length gs \<and> i < length ss \<and> \<not> is_constant (gs ! i)
        \<and> dict_get d (gs ! i) = None) \<Longrightarrow>
   (\<forall>i \<in> set is. \<forall>j \<in> set is. term_eq (gs ! i) (gs ! j) \<longrightarrow> i = j) \<Longrightarrow>
   distinct is \<Longrightarrow>
   substitution_loop gs ss is d = Inr (Some (d @ map (\<lambda>i. (gs ! i, ss ! i)) is))"
proof (induction "is" arbitrary: d)
  case Nil
  then show ?case by simp
next
  case (Cons i "is")
  have fresh: "\<forall>k \<in> set is. dict_get (d @ [(gs ! i, ss ! i)]) (gs ! k) = None"
    using Cons.prems by (auto simp: dict_get_append)
  have "substitution_loop gs ss is (d @ [(gs ! i, ss ! i)])
          = Inr (Some ((d @ [(gs ! i, ss ! i)]) @ map (\<lambda>i. (gs ! i, ss ! i)) is))"
    using Cons.prems fresh by (intro Cons.IH) auto
  with Cons.prems show ?case by (simp add: substitution_loop_Cons)
qed

lemma variable_terms_length [simp]: "length (variable_terms n) = nat n"
  by (simp add: variable_terms_def)

lemma variable_terms_nth:
  "i < nat n \<Longrightarrow> variable_terms n ! i = Variable (''X'' @ str_nat i)"
  by (simp add: variable_terms_def)

lemma map_nth_pair:
  "length xs = n \<Longrightarrow> length ys = n \<Longrightarrow> map (\<lambda>i. (xs ! i, ys ! i)) [0..<n] = zip xs ys"
  by (simp add: list_eq_iff_nth_eq)

lemma get_variable_atom_Predicate:
  "0 \<le> pred_arity p \<Longrightarrow>
   get_variable_atom (VPredicate p)
     = Inr (CAtom \<lparr>predicate = p, terms = variable_terms (pred_arity p),
                   weight = PyFloat 1, provenance = None\<rparr>)"
  by (simp add: get_variable_atom_def Atom_init_def build_terms_of_terms)

lemma get_substitution_variable_terms:
  assumes "pred_arity (predicate s) = int (length (terms s))"
    and "predicate g = predicate s"
    and "terms g = variable_terms (pred_arity (predicate s))"
  shows "get_substitution g s = Inr (Some (zip (terms g) (terms s)))"
proof -
  let ?n = "length (terms s)"
  let ?gs = "variable_terms (pred_arity (predicate s))"
  have n: "nat (pred_arity (predicate s)) = ?n" using assms(1) by simp
  have "substitution_loop ?gs (terms s) [0..<?n] []
          = Inr (Some ([] @ map (\<lambda>i. (?gs ! i, terms s ! i)) [0..<?n]))"
  proof (rule substitution_loop_fresh)
    show "\<forall>i \<in> set [0..<?n]. i < length ?gs \<and> i < ?n \<and> \<not> is_constant (?gs ! i)
            \<and> dict_get [] (?gs ! i) = None"
      using n by (simp add: variable_terms_nth)
    show "\<forall>i \<in> set [0..<?n]. \<forall>j \<in> set [0..<?n]. term_eq (?gs ! i) (?gs ! j) \<longrightarrow> i = j"
      using n by (auto simp: variable_terms_nth term_eq_def dest: str_nat_inj)
    show "distinct [0..<?n]" by simp
  qed
  then show ?thesis
    using n assms(2,3) by (simp add: get_substitution_def pred_ne_def map_nth_pair)
qed

lemma get_substitution_matches:
  assumes "get_substitution g s = Inr (Some \<sigma>)" and "i < nat (pred_arity (predicate g))"
  shows "i < length (terms g) \<and> i < length (terms s)
         \<and> (\<exists>v. dict_get \<sigma> (terms g ! i) = Some v \<and> term_eq v (terms s ! i))"
proof -
  from assms(1)
  have "substitution_loop (terms g) (terms s) [0..<nat (pred_arity (predicate g))] []
          = Inr (Some \<sigma>)"
    by (simp add: get_substitution_def split: if_splits)
  from substitution_loop_sound [OF this] assms(2) show ?thesis by simp
qed

lemma get_substitution_repeated:
  "\<not> is_constant x \<Longrightarrow> pred_arity p = 2 \<Longrightarrow> predicate g = p \<Longrightarrow> terms g = [x, x] \<Longrightarrow>
   predicate s = p \<Longrightarrow> terms s = [a, b] \<Longrightarrow>
   get_substitution g s = Inr (if term_eq a b then Some [(x, a)] else None)"
  by (simp add: get_substitution_def pred_ne_def upt_rec substitution_loop_Cons)

text \<open>
  C1. \<^verbatim>\<open>get_substitution(g, s)\<close> answers \<^verbatim>\<open>None\<close> whenever the predicates differ; for
  a ground atom \<open>s\<close> with as many terms as its predicate's arity, the variable atom of
  that predicate exists and \<^verbatim>\<open>get_substitution\<close> returns the dictionary binding its
  variables to the terms of \<open>s\<close> in order; for a non-constant term \<open>x\<close>,
  \<^verbatim>\<open>p(x, x)\<close> against \<^verbatim>\<open>p(a, b)\<close> gives a dictionary exactly when \<open>a\<close> equals
  \<open>b\<close>; and whenever a dictionary is returned, two positions of \<open>g\<close> holding equal
  terms are bound to one value that equals the term of \<open>s\<close> at both positions.
\<close>

theorem get_substitution_unifier:
  fixes g :: "'a Atom_scheme" and s :: "'b Atom_scheme" and s' :: Atom
  shows
  "(pred_ne (predicate g) (predicate s) \<longrightarrow> get_substitution g s = Inr None)
   \<and> (pred_arity (predicate s') = int (length (terms s')) \<and> is_grounded s' \<longrightarrow>
        (\<exists>v. get_variable_atom (VPredicate (predicate s')) = Inr (CAtom v)
             \<and> get_substitution v s' = Inr (Some (zip (terms v) (terms s')))))
   \<and> (\<not> is_constant x \<and> pred_arity p = 2 \<longrightarrow>
        get_substitution
          \<lparr>predicate = p, terms = [x, x], weight = w1, provenance = None\<rparr>
          \<lparr>predicate = p, terms = [a, b], weight = w2, provenance = None\<rparr>
        = Inr (if term_eq a b then Some [(x, a)] else None))
   \<and> (get_substitution g s = Inr (Some \<sigma>) \<and> i < nat (pred_arity (predicate g))
        \<and> j < nat (pred_arity (predicate g)) \<and> term_eq (terms g ! i) (terms g ! j) \<longrightarrow>
        (\<exists>v. dict_get \<sigma> (terms g ! i) = Some v \<and> term_eq v (terms s ! i)
             \<and> term_eq v (terms s ! j))
        \<and> term_eq (terms s ! i) (terms s ! j))"
proof (intro conjI impI)
  assume "pred_ne (predicate g) (predicate s)"
  then show "get_substitution g s = Inr None" by (simp add: get_substitution_def)
next
  assume a: "pred_arity (predicate s') = int (length (terms s')) \<and> is_grounded s'"
  then have "0 \<le> pred_arity (predicate s')" by simp
  from get_variable_atom_Predicate [OF this]
    get_substitution_variable_terms [of s'
      "\<lparr>predicate = predicate s', terms = variable_terms (pred_arity (predicate s')),
        weight = PyFloat 1, provenance = None\<rparr>"] a
  show "\<exists>v. get_variable_atom (VPredicate (predicate s')) = Inr (CAtom v)
             \<and> get_substitution v s' = Inr (Some (zip (terms v) (terms s')))"
    by simp
next
  assume "\<not> is_constant x \<and> pred_arity p = 2"
  then show "get_substitution
          \<lparr>predicate = p, terms = [x, x], weight = w1, provenance = None\<rparr>
          \<lparr>predicate = p, terms = [a, b], weight = w2, provenance = None\<rparr>
        = Inr (if term_eq a b then Some [(x, a)] else None)"
    by (intro get_substitution_repeated [of x p]) simp_all
next
  assume a: "get_substitution g s = Inr (Some \<sigma>) \<and> i < nat (pred_arity (predicate g))
        \<and> j < nat (pred_arity (predicate g)) \<and> term_eq (terms g ! i) (terms g ! j)"
  from get_substitution_matches [of g s \<sigma> i] a
  obtain v where v: "dict_get \<sigma> (terms g ! i) = Some v" "term_eq v (terms s ! i)" by blast
  from get_substitution_matches [of g s \<sigma> j] a
  obtain v' where v': "dict_get \<sigma> (terms g ! j) = Some v'" "term_eq v' (terms s ! j)" by blast
  from a dict_get_cong [of "terms g ! i" "terms g ! j" \<sigma>] v(1) v'(1) have "v = v'" by simp
  with v v' show "\<exists>v. dict_get \<sigma> (terms g ! i) = Some v \<and> term_eq v (terms s ! i)
             \<and> term_eq v (terms s ! j)" by blast
  from \<open>v = v'\<close> v v' show "term_eq (terms s ! i) (terms s ! j)"
    by (simp add: term_eq_def)
qed

lemma str_nat_small: "str_nat 0 = ''0''" "str_nat (Suc 0) = ''1''" "str_nat 1 = ''1''"
  by (simp_all add: str_nat.simps digit_char_def)

theorem get_substitution_unifier_witness:
  "pred_ne (Predicate ''p'' 1) (Predicate ''q'' 1)
   \<and> get_substitution
        \<lparr>predicate = Predicate ''p'' 1, terms = [Variable ''X''], weight = PyFloat 1,
         provenance = None\<rparr>
        \<lparr>predicate = Predicate ''q'' 1, terms = [Constant ''a''], weight = PyFloat 1,
         provenance = None\<rparr> = Inr None
   \<and> is_grounded \<lparr>predicate = Predicate ''parent'' 2,
                   terms = [Constant ''ann'', Constant ''bob''], weight = PyFloat 1,
                   provenance = None\<rparr>
   \<and> (\<exists>v. get_variable_atom (VPredicate (Predicate ''parent'' 2)) = Inr (CAtom v)
         \<and> get_substitution v
              \<lparr>predicate = Predicate ''parent'' 2,
               terms = [Constant ''ann'', Constant ''bob''], weight = PyFloat 1,
               provenance = None\<rparr>
            = Inr (Some [(Variable ''X0'', Constant ''ann''), (Variable ''X1'', Constant ''bob'')]))
   \<and> get_substitution
        \<lparr>predicate = Predicate ''p'' 2, terms = [Variable ''X'', Variable ''X''],
         weight = PyFloat 1, provenance = None\<rparr>
        \<lparr>predicate = Predicate ''p'' 2, terms = [Constant ''a'', Constant ''b''],
         weight = PyFloat 1, provenance = None\<rparr> = Inr None
   \<and> get_substitution
        \<lparr>predicate = Predicate ''p'' 2, terms = [Variable ''X'', Variable ''X''],
         weight = PyFloat 1, provenance = None\<rparr>
        \<lparr>predicate = Predicate ''p'' 2, terms = [Constant ''a'', Constant ''a''],
         weight = PyFloat 1, provenance = None\<rparr>
      = Inr (Some [(Variable ''X'', Constant ''a'')])"
  using
    get_substitution_unifier [of
      "\<lparr>predicate = Predicate ''p'' 1, terms = [Variable ''X''], weight = PyFloat 1,
        provenance = None\<rparr>"
      "\<lparr>predicate = Predicate ''q'' 1, terms = [Constant ''a''], weight = PyFloat 1,
        provenance = None\<rparr>"
      "\<lparr>predicate = Predicate ''parent'' 2,
        terms = [Constant ''ann'', Constant ''bob''], weight = PyFloat 1,
        provenance = None\<rparr>"
      "Variable ''X''" "Predicate ''p'' 2" "PyFloat 1" "Constant ''a''" "Constant ''b''"
      "PyFloat 1" "[]" 0 0]
    get_substitution_unifier [of
      "\<lparr>predicate = Predicate ''p'' 2, terms = [Variable ''X'', Variable ''X''],
        weight = PyFloat 1, provenance = None\<rparr>"
      "\<lparr>predicate = Predicate ''p'' 2, terms = [Constant ''a'', Constant ''a''],
        weight = PyFloat 1, provenance = None\<rparr>"
      "\<lparr>predicate = Predicate ''parent'' 2,
        terms = [Constant ''ann'', Constant ''bob''], weight = PyFloat 1,
        provenance = None\<rparr>"
      "Variable ''X''" "Predicate ''p'' 2" "PyFloat 1" "Constant ''a''" "Constant ''a''"
      "PyFloat 1" "[(Variable ''X'', Constant ''a'')]" 0 1]
  by (simp add: is_grounded_def pred_ne_def pred_eq_def pred_dunder_eq_def pred_key_def
      term_eq_def get_variable_atom_def Atom_init_def variable_terms_def upt_rec
      str_nat_small)

subsection \<open>Renaming\<close>

lemma canonical_index_card:
  "canonical_index ts t =
     card (nonconst_keys (takeWhile (\<lambda>u. is_constant u \<or> \<not> term_eq u t) ts))"
  by (simp add: canonical_index_def length_remdups_card_conv)

lemma canonical_index_seen:
  assumes "term_key u \<in> nonconst_keys ps"
  shows "canonical_index (ps @ qs) u = canonical_index ps u"
proof -
  from assms obtain x where "x \<in> set ps" "\<not> is_constant x" "term_key x = term_key u"
    by auto
  then have "takeWhile (\<lambda>v. is_constant v \<or> \<not> term_eq v u) (ps @ qs)
           = takeWhile (\<lambda>v. is_constant v \<or> \<not> term_eq v u) ps"
    by (intro takeWhile_append1 [of x]) (simp_all add: term_eq_def)
  then show ?thesis by (simp add: canonical_index_def)
qed

lemma canonical_index_new:
  assumes "term_key u \<notin> nonconst_keys ps" and "\<not> is_constant t" and "term_eq t u"
  shows "canonical_index (ps @ t # qs) u = card (nonconst_keys ps)"
proof -
  have "\<forall>x \<in> set ps. is_constant x \<or> \<not> term_eq x u"
    using assms(1) by (fastforce simp: term_eq_def image_iff)
  then have "takeWhile (\<lambda>v. is_constant v \<or> \<not> term_eq v u) (ps @ t # qs) = ps"
    using assms(2,3) by (simp add: takeWhile_append2)
  then show ?thesis by (simp add: canonical_index_card)
qed

lemma rename_inv_same_keys:
  assumes "rename_inv m idx ps" and keys: "nonconst_keys (ps @ [t]) = nonconst_keys ps"
  shows "rename_inv m idx (ps @ [t])"
proof -
  have "canonical_index (ps @ [t]) u = canonical_index ps u"
    if "term_key u \<in> nonconst_keys ps" for u
    using that by (rule canonical_index_seen)
  with assms(1) keys show ?thesis
    unfolding rename_inv_def by (simp del: set_map set_filter map_append filter_append)
qed

lemma rename_inv_constant:
  "rename_inv m idx ps \<Longrightarrow> is_constant t \<Longrightarrow> rename_inv m idx (ps @ [t])"
  by (rule rename_inv_same_keys) simp_all

lemma rename_inv_seen:
  "rename_inv m idx ps \<Longrightarrow> \<not> is_constant t \<Longrightarrow> term_key t \<in> nonconst_keys ps \<Longrightarrow>
   rename_inv m idx (ps @ [t])"
  by (rule rename_inv_same_keys) auto

lemma rename_inv_new:
  assumes "rename_inv m idx ps" and "\<not> is_constant t" and "term_key t \<notin> nonconst_keys ps"
  shows "rename_inv (m @ [(t, ''X'' @ str_nat idx)]) (idx + 1) (ps @ [t])"
proof -
  have keys: "nonconst_keys (ps @ [t]) = insert (term_key t) (nonconst_keys ps)"
    using assms(2) by auto
  have idx: "idx = card (nonconst_keys ps)" using assms(1) by (simp add: rename_inv_def)
  have card: "idx + 1 = card (nonconst_keys (ps @ [t]))"
    unfolding keys idx using assms(3) by (simp del: set_map set_filter)
  have get: "dict_get (m @ [(t, ''X'' @ str_nat idx)]) u =
      (if term_key u \<in> nonconst_keys (ps @ [t])
       then Some (''X'' @ str_nat (canonical_index (ps @ [t]) u)) else None)" for u
  proof (cases "term_key u \<in> nonconst_keys ps")
    case True
    then have "dict_get m u = Some (''X'' @ str_nat (canonical_index ps u))"
      using assms(1) by (simp add: rename_inv_def del: set_map set_filter)
    with True canonical_index_seen [OF True, of "[t]"] show ?thesis
      unfolding keys by (simp add: dict_get_append del: set_map set_filter)
  next
    case False
    then have none: "dict_get m u = None"
      using assms(1) by (simp add: rename_inv_def del: set_map set_filter)
    show ?thesis
    proof (cases "term_eq t u")
      case True
      with canonical_index_new [OF False assms(2) True, of "[]"] none idx show ?thesis
        unfolding keys by (simp add: dict_get_append term_eq_def del: set_map set_filter)
    next
      case neq: False
      with none False show ?thesis
        unfolding keys by (auto simp add: dict_get_append term_eq_def simp del: set_map set_filter)
    qed
  qed
  from card get show ?thesis unfolding rename_inv_def by blast
qed

lemma rename_terms_canonical:
  "rename_inv m idx ps \<Longrightarrow>
   rename_terms ts idx m = map (canonical_arg (ps @ ts)) ts"
proof (induction ts arbitrary: m idx ps)
  case Nil
  then show ?case by simp
next
  case (Cons t ts)
  show ?case
  proof (cases "is_constant t")
    case True
    from Cons.IH [OF rename_inv_constant [OF Cons.prems True]] True
    show ?thesis by (simp add: canonical_arg_def keep_constant_def split: Term.splits)
  next
    case False
    show ?thesis
    proof (cases "term_key t \<in> nonconst_keys ps")
      case True
      with Cons.prems
      have get: "dict_get m t = Some (''X'' @ str_nat (canonical_index ps t))"
        by (simp add: rename_inv_def del: set_map set_filter)
      from Cons.IH [OF rename_inv_seen [OF Cons.prems False True]] get False
        canonical_index_seen [OF True, of "t # ts"]
      show ?thesis by (simp add: canonical_arg_def)
    next
      case new: False
      with Cons.prems have get: "dict_get m t = None" and idx: "idx = card (nonconst_keys ps)"
        by (simp_all add: rename_inv_def del: set_map set_filter)
      from Cons.IH [OF rename_inv_new [OF Cons.prems False new]] get False idx
        canonical_index_new [OF new False term_eq_refl, of ts]
      show ?thesis by (simp add: canonical_arg_def del: set_map set_filter)
    qed
  qed
qed

lemma rename_inv_empty: "rename_inv [] 0 []"
  by (simp add: rename_inv_def)

lemma get_term_from_string_X:
  "get_term_from_string (CHR ''X'' # s) = Inr (Variable (CHR ''X'' # s))"
  by (simp add: get_term_from_string_def isupper_def)

lemma build_terms_canonical:
  "build_terms (map (canonical_arg us) ts)
     = Inr (map (\<lambda>t. if is_constant t then keep_constant t
                     else Variable (''X'' @ str_nat (canonical_index us t))) ts)"
  by (induction ts) (simp_all add: canonical_arg_def get_term_from_string_X)

lemma build_terms_rename: "build_terms (rename_terms ts 0 []) = Inr (canonical_terms ts)"
  using rename_terms_canonical [OF rename_inv_empty, of ts] build_terms_canonical [of ts ts]
  by (simp add: canonical_terms_def)

lemma length_rename_terms: "length (rename_terms ts 0 []) = length ts"
  using rename_terms_canonical [OF rename_inv_empty, of ts] by simp

lemma get_renamed_atom_eq:
  "get_renamed_atom a =
     (if pred_arity (predicate a) \<noteq> int (length (terms a))
      then Inl (AtomMalformedException (pred_arity (predicate a)) (int (length (terms a))))
      else Inr \<lparr>predicate = predicate a, terms = canonical_terms (terms a),
                weight = PyFloat 1, provenance = None\<rparr>)"
  by (simp add: get_renamed_atom_def Atom_init_def build_terms_rename length_rename_terms)

lemma canonical_index_take:
  "canonical_index ts t = card (nonconst_keys (take (length (takeWhile (stops_at t) ts)) ts))"
  using takeWhile_eq_take [of "stops_at t" ts] by (simp add: canonical_index_card)

lemma length_takeWhile_pointwise:
  "length xs = length ys \<Longrightarrow> (\<forall>i < length xs. P (xs ! i) = Q (ys ! i)) \<Longrightarrow>
   length (takeWhile P xs) = length (takeWhile Q ys)"
proof (induction xs ys rule: list_induct2)
  case Nil
  then show ?case by simp
next
  case (Cons x xs y ys)
  from Cons.prems have hd: "P x = Q y" by force
  from Cons.prems have "\<forall>i < length xs. P (xs ! i) = Q (ys ! i)" by force
  with Cons.IH hd show ?case by simp
qed

lemma mem_keys_take:
  assumes "p \<le> length ts"
  shows "(k \<in> nonconst_keys (take p ts))
           = (\<exists>j < p. \<not> is_constant (ts ! j) \<and> term_key (ts ! j) = k)"
proof
  assume "k \<in> nonconst_keys (take p ts)"
  then obtain x where x: "x \<in> set (take p ts)" "\<not> is_constant x" "term_key x = k" by auto
  from x(1) obtain j where "j < length (take p ts)" "take p ts ! j = x"
    by (auto simp: in_set_conv_nth)
  with assms x(2,3) show "\<exists>j < p. \<not> is_constant (ts ! j) \<and> term_key (ts ! j) = k"
    by (intro exI [of _ j]) simp
next
  assume "\<exists>j < p. \<not> is_constant (ts ! j) \<and> term_key (ts ! j) = k"
  then obtain j where j: "j < p" "\<not> is_constant (ts ! j)" "term_key (ts ! j) = k" by blast
  with assms have "ts ! j \<in> set (take p ts)"
    by (metis in_set_conv_nth length_take min.absorb2 nth_take)
  with j show "k \<in> nonconst_keys (take p ts)" by force
qed

lemma keys_take_Suc:
  assumes "p < length ts"
  shows "nonconst_keys (take (Suc p) ts) =
           (if is_constant (ts ! p) then nonconst_keys (take p ts)
            else insert (term_key (ts ! p)) (nonconst_keys (take p ts)))"
  using assms by (simp add: take_Suc_conv_app_nth)

lemma card_keys_same_pattern:
  assumes len: "length ts = length us"
    and cflags: "\<forall>i < length ts. is_constant (ts ! i) = is_constant (us ! i)"
    and pat: "\<forall>i < length ts. \<forall>j < length ts.
                \<not> is_constant (ts ! i) \<and> \<not> is_constant (ts ! j) \<longrightarrow>
                term_eq (ts ! i) (ts ! j) = term_eq (us ! i) (us ! j)"
  shows "p \<le> length ts \<Longrightarrow>
         card (nonconst_keys (take p ts)) = card (nonconst_keys (take p us))"
proof (induction p)
  case 0
  then show ?case by simp
next
  case (Suc p)
  then have p: "p < length ts" "p < length us" "p \<le> length ts" "p \<le> length us"
    using len by simp_all
  from Suc have IH: "card (nonconst_keys (take p ts)) = card (nonconst_keys (take p us))"
    by simp
  show ?case
  proof (cases "is_constant (ts ! p)")
    case True
    with cflags p have "is_constant (us ! p)" by simp
    with True IH p show ?thesis
      by (simp add: keys_take_Suc del: set_map set_filter)
  next
    case False
    with cflags p have nc: "\<not> is_constant (us ! p)" by simp
    have "(term_key (ts ! p) \<in> nonconst_keys (take p ts))
        = (term_key (us ! p) \<in> nonconst_keys (take p us))"
      unfolding mem_keys_take [OF p(3)] mem_keys_take [OF p(4)]
    proof (intro iffI; elim exE conjE)
      fix j assume j: "j < p" "\<not> is_constant (ts ! j)" "term_key (ts ! j) = term_key (ts ! p)"
      with pat False p have "term_eq (us ! j) (us ! p)"
        by (metis (no_types, lifting) less_trans term_eq_def)
      with j cflags p show "\<exists>j<p. \<not> is_constant (us ! j) \<and> term_key (us ! j) = term_key (us ! p)"
        by (intro exI [of _ j]) (simp add: term_eq_def)
    next
      fix j assume j: "j < p" "\<not> is_constant (us ! j)" "term_key (us ! j) = term_key (us ! p)"
      with cflags p have ncj: "\<not> is_constant (ts ! j)" by simp
      with pat False p j have "term_eq (ts ! j) (ts ! p)"
        by (metis (no_types, lifting) less_trans term_eq_def)
      with j ncj show "\<exists>j<p. \<not> is_constant (ts ! j) \<and> term_key (ts ! j) = term_key (ts ! p)"
        by (intro exI [of _ j]) (simp add: term_eq_def)
    qed
    with False nc IH p show ?thesis
      by (simp add: keys_take_Suc card_insert_if del: set_map set_filter)
  qed
qed

lemma same_shape_iff:
  "same_shape ts us =
     (length ts = length us
      \<and> (\<forall>i < length ts. is_constant (ts ! i) = is_constant (us ! i)
            \<and> (is_constant (ts ! i) \<longrightarrow> term_eq (ts ! i) (us ! i)))
      \<and> (\<forall>i < length ts. \<forall>j < length ts.
            \<not> is_constant (ts ! i) \<and> \<not> is_constant (ts ! j) \<longrightarrow>
            term_eq (ts ! i) (ts ! j) = term_eq (us ! i) (us ! j)))"
  by (simp add: same_shape_def list_all_iff Ball_def)

lemma canonical_index_same_shape:
  assumes "same_shape ts us" and i: "i < length ts" and nc: "\<not> is_constant (ts ! i)"
  shows "canonical_index ts (ts ! i) = canonical_index us (us ! i)"
proof -
  from assms(1) have len: "length ts = length us"
    and cflags: "\<forall>i < length ts. is_constant (ts ! i) = is_constant (us ! i)"
    and pat: "\<forall>i < length ts. \<forall>j < length ts.
                \<not> is_constant (ts ! i) \<and> \<not> is_constant (ts ! j) \<longrightarrow>
                term_eq (ts ! i) (ts ! j) = term_eq (us ! i) (us ! j)"
    by (simp_all add: same_shape_iff)
  have "\<forall>j < length ts. stops_at (ts ! i) (ts ! j) = stops_at (us ! i) (us ! j)"
    using cflags pat i nc by blast
  from length_takeWhile_pointwise [OF len this]
  have fo: "length (takeWhile (stops_at (ts ! i)) ts) = length (takeWhile (stops_at (us ! i)) us)" .
  have "length (takeWhile (stops_at (ts ! i)) ts) \<le> length ts"
    by (rule length_takeWhile_le)
  from card_keys_same_pattern [OF len cflags pat this] fo show ?thesis
    by (simp add: canonical_index_take del: set_map set_filter)
qed

lemma term_key_keep_constant [simp]: "term_key (keep_constant t) = term_key t"
  by (cases t) (simp_all add: keep_constant_def)

lemma is_constant_keep_constant: "is_constant t \<Longrightarrow> is_constant (keep_constant t)"
  by (cases t) (simp_all add: keep_constant_def)

lemma length_canonical_terms [simp]: "length (canonical_terms ts) = length ts"
  by (simp add: canonical_terms_def)

lemma canonical_terms_nth:
  "i < length ts \<Longrightarrow>
   canonical_terms ts ! i =
     (if is_constant (ts ! i) then keep_constant (ts ! i)
      else Variable (''X'' @ str_nat (canonical_index ts (ts ! i))))"
  by (simp add: canonical_terms_def)

lemma canonical_terms_same_shape:
  assumes "same_shape ts us"
  shows "list_all2 term_eq (canonical_terms ts) (canonical_terms us)"
proof -
  from assms have len: "length ts = length us"
    and cflags: "\<forall>i < length ts. is_constant (ts ! i) = is_constant (us ! i)
            \<and> (is_constant (ts ! i) \<longrightarrow> term_eq (ts ! i) (us ! i))"
    by (simp_all add: same_shape_iff)
  have "term_eq (canonical_terms ts ! i) (canonical_terms us ! i)" if "i < length ts" for i
  proof (cases "is_constant (ts ! i)")
    case True
    with cflags that len show ?thesis
      by (simp add: canonical_terms_nth term_eq_def)
  next
    case False
    with cflags that len canonical_index_same_shape [OF assms that False] show ?thesis
      by (simp add: canonical_terms_nth term_eq_def)
  qed
  with len show ?thesis by (simp add: list_all2_conv_all_nth)
qed

lemma canonical_index_cong:
  "term_eq t u \<Longrightarrow> canonical_index ts t = canonical_index ts u"
  by (simp add: canonical_index_def term_eq_def)

lemma first_occurrence_le:
  assumes "i < length ts" and "\<not> is_constant (ts ! i)"
  shows "length (takeWhile (stops_at (ts ! i)) ts) \<le> i"
proof (rule ccontr)
  assume "\<not> length (takeWhile (stops_at (ts ! i)) ts) \<le> i"
  then have lt: "i < length (takeWhile (stops_at (ts ! i)) ts)" by simp
  then have "takeWhile (stops_at (ts ! i)) ts ! i \<in> set (takeWhile (stops_at (ts ! i)) ts)"
    by (rule nth_mem)
  then have "stops_at (ts ! i) (takeWhile (stops_at (ts ! i)) ts ! i)"
    by (rule set_takeWhileD [THEN conjunct2])
  with lt assms show False by (simp add: takeWhile_nth)
qed

lemma first_occurrence_hit:
  assumes "i < length ts" and "\<not> is_constant (ts ! i)"
  shows "\<not> is_constant (ts ! length (takeWhile (stops_at (ts ! i)) ts))
         \<and> term_eq (ts ! length (takeWhile (stops_at (ts ! i)) ts)) (ts ! i)"
proof -
  from first_occurrence_le [OF assms] assms(1)
  have "length (takeWhile (stops_at (ts ! i)) ts) < length ts" by simp
  from nth_length_takeWhile [OF this] show ?thesis by simp
qed

lemma first_occurrence_before:
  assumes "k < length (takeWhile (stops_at t) ts)"
  shows "is_constant (ts ! k) \<or> \<not> term_eq (ts ! k) t"
proof -
  from assms have "takeWhile (stops_at t) ts ! k \<in> set (takeWhile (stops_at t) ts)"
    by (rule nth_mem)
  then have "stops_at t (takeWhile (stops_at t) ts ! k)"
    by (rule set_takeWhileD [THEN conjunct2])
  with assms show ?thesis by (simp add: takeWhile_nth)
qed

lemma canonical_index_less:
  assumes i: "i < length ts" "\<not> is_constant (ts ! i)"
    and j: "j < length ts" "\<not> is_constant (ts ! j)"
    and lt: "length (takeWhile (stops_at (ts ! i)) ts) < length (takeWhile (stops_at (ts ! j)) ts)"
  shows "canonical_index ts (ts ! i) < canonical_index ts (ts ! j)"
proof -
  let ?p = "length (takeWhile (stops_at (ts ! i)) ts)"
  let ?q = "length (takeWhile (stops_at (ts ! j)) ts)"
  have q: "?q \<le> length ts" by (rule length_takeWhile_le)
  with lt have p: "?p \<le> length ts" by simp
  from first_occurrence_hit [OF i]
  have hit: "\<not> is_constant (ts ! ?p)" "term_key (ts ! ?p) = term_key (ts ! i)"
    by (simp_all add: term_eq_def)
  have "nonconst_keys (take ?p ts) \<subseteq> nonconst_keys (take ?q ts)"
  proof
    fix k assume "k \<in> nonconst_keys (take ?p ts)"
    then obtain m where "m < ?p" "\<not> is_constant (ts ! m)" "term_key (ts ! m) = k"
      unfolding mem_keys_take [OF p] by blast
    with lt show "k \<in> nonconst_keys (take ?q ts)"
      unfolding mem_keys_take [OF q] by (intro exI [of _ m]) simp
  qed
  moreover have "term_key (ts ! i) \<in> nonconst_keys (take ?q ts)"
    unfolding mem_keys_take [OF q] using lt hit by (intro exI [of _ ?p]) simp
  moreover have "term_key (ts ! i) \<notin> nonconst_keys (take ?p ts)"
    unfolding mem_keys_take [OF p]
    using first_occurrence_before [of _ "ts ! i" ts] by (auto simp: term_eq_def)
  ultimately have "nonconst_keys (take ?p ts) \<subset> nonconst_keys (take ?q ts)" by blast
  then have "card (nonconst_keys (take ?p ts)) < card (nonconst_keys (take ?q ts))"
    by (intro psubset_card_mono) simp_all
  then show ?thesis by (simp add: canonical_index_take del: set_map set_filter)
qed

lemma canonical_index_inj:
  assumes i: "i < length ts" "\<not> is_constant (ts ! i)"
    and j: "j < length ts" "\<not> is_constant (ts ! j)"
    and eq: "canonical_index ts (ts ! i) = canonical_index ts (ts ! j)"
  shows "term_eq (ts ! i) (ts ! j)"
proof -
  let ?p = "length (takeWhile (stops_at (ts ! i)) ts)"
  let ?q = "length (takeWhile (stops_at (ts ! j)) ts)"
  have "\<not> ?p < ?q" using canonical_index_less [OF i j] eq by auto
  moreover have "\<not> ?q < ?p" using canonical_index_less [OF j i] eq by auto
  ultimately have pq: "?p = ?q" by simp
  from first_occurrence_hit [OF i] have a: "term_eq (ts ! ?p) (ts ! i)" by simp
  from first_occurrence_hit [OF j] have "term_eq (ts ! ?q) (ts ! j)" by simp
  then have b: "term_eq (ts ! ?p) (ts ! j)" by (simp only: pq)
  from term_eq_trans [OF term_eq_sym [OF a] b] show ?thesis .
qed

lemma term_eq_index_names:
  "term_eq (Variable (''X'' @ str_nat m)) (Variable (''X'' @ str_nat n)) = (m = n)"
  using str_nat_inj [of m n] by (auto simp: term_eq_def)

lemma same_shape_canonical: "same_shape ts (canonical_terms ts)"
proof -
  have pat: "term_eq (ts ! i) (ts ! j)
          = term_eq (canonical_terms ts ! i) (canonical_terms ts ! j)"
    if "i < length ts" "j < length ts" "\<not> is_constant (ts ! i)" "\<not> is_constant (ts ! j)"
    for i j
  proof -
    have "term_eq (canonical_terms ts ! i) (canonical_terms ts ! j)
            = (canonical_index ts (ts ! i) = canonical_index ts (ts ! j))"
      using that by (simp only: canonical_terms_nth if_False term_eq_index_names)
    also have "\<dots> = term_eq (ts ! i) (ts ! j)"
      using canonical_index_inj [of i ts j] canonical_index_cong [of "ts ! i" "ts ! j" ts] that
      by blast
    finally show ?thesis by simp
  qed
  have flags: "is_constant (canonical_terms ts ! i) = is_constant (ts ! i)
        \<and> (is_constant (ts ! i) \<longrightarrow> term_eq (ts ! i) (canonical_terms ts ! i))"
    if "i < length ts" for i
    using that by (simp add: canonical_terms_nth is_constant_keep_constant term_eq_def)
  show ?thesis
    unfolding same_shape_iff using pat flags by (simp only: length_canonical_terms) blast
qed

lemma canonical_terms_idem:
  "list_all2 term_eq (canonical_terms (canonical_terms ts)) (canonical_terms ts)"
proof -
  from canonical_terms_same_shape [OF same_shape_canonical [of ts]]
  have "list_all2 term_eq (canonical_terms ts) (canonical_terms (canonical_terms ts))" .
  then show ?thesis
    unfolding list_all2_conv_all_nth term_eq_def by simp
qed

lemma list_all2_term_eq_refl: "list_all2 term_eq ts ts"
  by (simp add: list_all2_conv_all_nth)

lemma pred_eq_arity: "pred_eq p q \<Longrightarrow> pred_arity p = pred_arity q"
  using pred_eq_key [of p q] by (simp add: pred_key_def)

text \<open>
  C2. For an atom with as many terms as its predicate's arity, \<^verbatim>\<open>get_renamed_atom\<close>
  returns the atom of the same predicate whose terms are the canonical ones: constants
  kept (a constant \<^verbatim>\<open>Quote\<close> as a bare \<^verbatim>\<open>Constant\<close>), non-constant terms replaced
  by \<^verbatim>\<open>X0\<close>, \<^verbatim>\<open>X1\<close>, ... in first-occurrence order, equal terms by the same name.
  Renaming the result again gives an atom equal to it, and two atoms with equal predicates
  that are identical except for variable names are renamed to equal atoms.
\<close>

theorem get_renamed_atom_canonical:
  fixes a :: "'a Atom_scheme" and a1 :: "'b Atom_scheme" and a2 :: "'c Atom_scheme"
  shows
  "(pred_arity (predicate a) = int (length (terms a)) \<longrightarrow>
      get_renamed_atom a
        = Inr \<lparr>predicate = predicate a, terms = canonical_terms (terms a),
               weight = PyFloat 1, provenance = None\<rparr>
      \<and> (\<exists>r r'. get_renamed_atom a = Inr r \<and> get_renamed_atom r = Inr r'
                 \<and> clause_eq (CAtom r') (CAtom r)))
   \<and> (pred_arity (predicate a1) = int (length (terms a1))
       \<and> pred_eq (predicate a1) (predicate a2) \<and> same_shape (terms a1) (terms a2) \<longrightarrow>
      (\<exists>r1 r2. get_renamed_atom a1 = Inr r1 \<and> get_renamed_atom a2 = Inr r2
                 \<and> clause_eq (CAtom r1) (CAtom r2)))"
proof (intro conjI impI)
  assume wf: "pred_arity (predicate a) = int (length (terms a))"
  then show r: "get_renamed_atom a
        = Inr \<lparr>predicate = predicate a, terms = canonical_terms (terms a),
               weight = PyFloat 1, provenance = None\<rparr>"
    by (simp add: get_renamed_atom_eq)
  let ?r = "\<lparr>predicate = predicate a, terms = canonical_terms (terms a),
             weight = PyFloat 1, provenance = None\<rparr>"
  let ?r' = "\<lparr>predicate = predicate a, terms = canonical_terms (canonical_terms (terms a)),
              weight = PyFloat 1, provenance = None\<rparr>"
  from wf have "get_renamed_atom ?r = Inr ?r'" by (simp add: get_renamed_atom_eq)
  moreover have "clause_eq (CAtom ?r') (CAtom ?r)"
    by (simp add: atom_eq_iff canonical_terms_idem)
  ultimately show "\<exists>r r'. get_renamed_atom a = Inr r \<and> get_renamed_atom r = Inr r'
                 \<and> clause_eq (CAtom r') (CAtom r)"
    using r by blast
next
  assume h: "pred_arity (predicate a1) = int (length (terms a1))
       \<and> pred_eq (predicate a1) (predicate a2) \<and> same_shape (terms a1) (terms a2)"
  then have len: "length (terms a1) = length (terms a2)" by (simp add: same_shape_iff)
  from h have r1: "get_renamed_atom a1
        = Inr \<lparr>predicate = predicate a1, terms = canonical_terms (terms a1),
               weight = PyFloat 1, provenance = None\<rparr>"
    by (simp add: get_renamed_atom_eq)
  from h len pred_eq_arity [of "predicate a1" "predicate a2"]
  have r2: "get_renamed_atom a2
        = Inr \<lparr>predicate = predicate a2, terms = canonical_terms (terms a2),
               weight = PyFloat 1, provenance = None\<rparr>"
    by (simp add: get_renamed_atom_eq)
  from h have "clause_eq
      (CAtom \<lparr>predicate = predicate a1, terms = canonical_terms (terms a1),
               weight = PyFloat 1, provenance = None\<rparr>)
      (CAtom \<lparr>predicate = predicate a2, terms = canonical_terms (terms a2),
               weight = PyFloat 1, provenance = None\<rparr>)"
    by (simp add: atom_eq_iff canonical_terms_same_shape)
  with r1 r2 show "\<exists>r1 r2. get_renamed_atom a1 = Inr r1 \<and> get_renamed_atom a2 = Inr r2
                 \<and> clause_eq (CAtom r1) (CAtom r2)"
    by blast
qed

text \<open>
  C9. Whatever \<^verbatim>\<open>get_renamed_atom\<close> returns has weight 1.0, and it does return for
  every atom with as many terms as its predicate's arity; two atoms with the same predicate
  and terms, whatever their weights, are renamed to the same, equal, atom.
\<close>

theorem get_renamed_atom_weight:
  fixes a :: "'a Atom_scheme" and b :: "'b Atom_scheme"
  shows
  "(get_renamed_atom a = Inr r \<longrightarrow> weight r = PyFloat 1)
   \<and> (pred_arity (predicate a) = int (length (terms a)) \<longrightarrow>
        (\<exists>r. get_renamed_atom a = Inr r \<and> weight r = PyFloat 1))
   \<and> (predicate b = predicate a \<and> terms b = terms a \<longrightarrow>
        get_renamed_atom b = get_renamed_atom a)
   \<and> (pred_arity (predicate a) = int (length (terms a))
       \<and> predicate b = predicate a \<and> terms b = terms a \<longrightarrow>
        (\<exists>r r'. get_renamed_atom a = Inr r \<and> get_renamed_atom b = Inr r'
                  \<and> clause_eq (CAtom r) (CAtom r')))"
proof (intro conjI impI)
  assume "get_renamed_atom a = Inr r"
  then show "weight r = PyFloat 1"
    by (auto simp: get_renamed_atom_eq split: if_splits)
next
  assume "pred_arity (predicate a) = int (length (terms a))"
  then show "\<exists>r. get_renamed_atom a = Inr r \<and> weight r = PyFloat 1"
    by (simp add: get_renamed_atom_eq)
next
  assume "predicate b = predicate a \<and> terms b = terms a"
  then show "get_renamed_atom b = get_renamed_atom a"
    by (simp add: get_renamed_atom_def)
next
  assume "pred_arity (predicate a) = int (length (terms a))
       \<and> predicate b = predicate a \<and> terms b = terms a"
  then show "\<exists>r r'. get_renamed_atom a = Inr r \<and> get_renamed_atom b = Inr r'
                  \<and> clause_eq (CAtom r) (CAtom r')"
    by (simp add: get_renamed_atom_eq atom_eq_iff list_all2_term_eq_refl)
qed

theorem get_renamed_atom_canonical_witness:
  "pred_arity (Predicate ''p'' 4) = int (length
      [Variable ''A'', Constant ''ann'', Variable ''B'', Variable ''A''])
   \<and> pred_eq (Predicate ''p'' 4) (Predicate ''p'' 4)
   \<and> same_shape [Variable ''A'', Constant ''ann'', Variable ''B'', Variable ''A'']
        [Variable ''Z'', Quote ''ann'' False (CHR 0x27), Variable ''Y'', Variable ''Z'']
   \<and> get_renamed_atom
        \<lparr>predicate = Predicate ''p'' 4,
         terms = [Variable ''A'', Constant ''ann'', Variable ''B'', Variable ''A''],
         weight = PyFloat 1, provenance = None\<rparr>
       = Inr \<lparr>predicate = Predicate ''p'' 4,
              terms = [Variable ''X0'', Constant ''ann'', Variable ''X1'', Variable ''X0''],
              weight = PyFloat 1, provenance = None\<rparr>
   \<and> get_renamed_atom
        \<lparr>predicate = Predicate ''p'' 4,
         terms = [Variable ''Z'', Quote ''ann'' False (CHR 0x27), Variable ''Y'', Variable ''Z''],
         weight = PyFloat 1, provenance = None\<rparr>
       = Inr \<lparr>predicate = Predicate ''p'' 4,
              terms = [Variable ''X0'', Constant ''ann'', Variable ''X1'', Variable ''X0''],
              weight = PyFloat 1, provenance = None\<rparr>
   \<and> get_renamed_atom
        \<lparr>predicate = Predicate ''p'' 4,
         terms = [Variable ''X0'', Constant ''ann'', Variable ''X1'', Variable ''X0''],
         weight = PyFloat 1, provenance = None\<rparr>
       = Inr \<lparr>predicate = Predicate ''p'' 4,
              terms = [Variable ''X0'', Constant ''ann'', Variable ''X1'', Variable ''X0''],
              weight = PyFloat 1, provenance = None\<rparr>"
  using
    get_renamed_atom_canonical [of
      "\<lparr>predicate = Predicate ''p'' 4,
        terms = [Variable ''A'', Constant ''ann'', Variable ''B'', Variable ''A''],
        weight = PyFloat 1, provenance = None\<rparr>"
      "\<lparr>predicate = Predicate ''p'' 4,
        terms = [Variable ''A'', Constant ''ann'', Variable ''B'', Variable ''A''],
        weight = PyFloat 1, provenance = None\<rparr>"
      "\<lparr>predicate = Predicate ''p'' 4,
        terms = [Variable ''Z'', Quote ''ann'' False (CHR 0x27), Variable ''Y'', Variable ''Z''],
        weight = PyFloat 1, provenance = None\<rparr>"]
    get_renamed_atom_canonical [of
      "\<lparr>predicate = Predicate ''p'' 4,
        terms = [Variable ''Z'', Quote ''ann'' False (CHR 0x27), Variable ''Y'', Variable ''Z''],
        weight = PyFloat 1, provenance = None\<rparr>"
      "\<lparr>predicate = Predicate ''p'' 4,
        terms = [Variable ''X0'', Constant ''ann'', Variable ''X1'', Variable ''X0''],
        weight = PyFloat 1, provenance = None\<rparr>"
      "\<lparr>predicate = Predicate ''p'' 4,
        terms = [Variable ''X0'', Constant ''ann'', Variable ''X1'', Variable ''X0''],
        weight = PyFloat 1, provenance = None\<rparr>"]
    get_renamed_atom_canonical [of
      "\<lparr>predicate = Predicate ''p'' 4,
        terms = [Variable ''X0'', Constant ''ann'', Variable ''X1'', Variable ''X0''],
        weight = PyFloat 1, provenance = None\<rparr>"
      "\<lparr>predicate = Predicate ''p'' 4,
        terms = [Variable ''X0'', Constant ''ann'', Variable ''X1'', Variable ''X0''],
        weight = PyFloat 1, provenance = None\<rparr>"
      "\<lparr>predicate = Predicate ''p'' 4,
        terms = [Variable ''X0'', Constant ''ann'', Variable ''X1'', Variable ''X0''],
        weight = PyFloat 1, provenance = None\<rparr>"]
  by (simp add: same_shape_def upt_rec term_eq_def canonical_terms_def canonical_index_def
      keep_constant_def str_nat_small)

theorem get_renamed_atom_weight_witness:
  "pred_arity (Predicate ''parent'' 2) = int (length [Constant ''ann'', Variable ''B''])
   \<and> get_renamed_atom
        \<lparr>predicate = Predicate ''parent'' 2, terms = [Constant ''ann'', Variable ''B''],
         weight = PyFloat (4 / 5), provenance = None\<rparr>
       = Inr \<lparr>predicate = Predicate ''parent'' 2, terms = [Constant ''ann'', Variable ''X0''],
              weight = PyFloat 1, provenance = None\<rparr>
   \<and> get_renamed_atom
        \<lparr>predicate = Predicate ''parent'' 2, terms = [Constant ''ann'', Variable ''B''],
         weight = PyFloat 1, provenance = None\<rparr>
       = get_renamed_atom
        \<lparr>predicate = Predicate ''parent'' 2, terms = [Constant ''ann'', Variable ''B''],
         weight = PyFloat (4 / 5), provenance = None\<rparr>"
  using
    get_renamed_atom_weight [of
      "\<lparr>predicate = Predicate ''parent'' 2, terms = [Constant ''ann'', Variable ''B''],
        weight = PyFloat (4 / 5), provenance = None\<rparr>"
      "\<lparr>predicate = Predicate ''parent'' 2, terms = [Constant ''ann'', Variable ''X0''],
        weight = PyFloat 1, provenance = None\<rparr>"
      "\<lparr>predicate = Predicate ''parent'' 2, terms = [Constant ''ann'', Variable ''B''],
        weight = PyFloat 1, provenance = None\<rparr>"]
  by (simp add: get_renamed_atom_eq term_eq_def canonical_terms_def canonical_index_def
      keep_constant_def str_nat_small)

end
